theory Spec2Isabelle
  imports Complex_Main
begin

text \<open>
  The invoice memory system decides how an invoice is processed from the patterns it has
  stored: Recall reads the patterns and blends their confidences, Apply normalises fields
  and applies corrections, Decision picks one of three actions under safety constraints,
  Learning feeds approvals and rejections back into the store, and Output publishes the
  result.  This theory embeds the functions of those engines and of the memory store as
  HOL functions and proves what they compute.

  A function that can raise returns a sum, with the error on the left; a function that
  changes the store or the learning engine takes the state and returns the new one.
\<close>

section \<open>JavaScript values\<close>

text \<open>
  A confidence score or a counter is modelled as a finite \<^typ>\<open>real\<close> or a
  \<^typ>\<open>nat\<close>: the arithmetic of the engines is read over the reals and a numeric
  literal such as \<^verbatim>\<open>0.85\<close> denotes itself.  A \<^verbatim>\<open>number\<close> that comes from
  invoice data, from a conversion or from a division whose divisor can be zero is a
  \<open>jsnum\<close>, which also has the values \<^verbatim>\<open>NaN\<close> and positive and negative
  \<^verbatim>\<open>Infinity\<close> (the sign of a zero is not tracked).
\<close>

datatype jsnum = Fin real | PosInf | NegInf | NaN

definition js_div :: "real \<Rightarrow> real \<Rightarrow> jsnum" where
  "js_div a b =
     (if b \<noteq> 0 then Fin (a / b)
      else if a = 0 then NaN
      else if 0 < a then PosInf else NegInf)"

definition js_divide :: "jsnum \<Rightarrow> jsnum \<Rightarrow> jsnum" where
  "js_divide x y =
     (case (x, y) of
        (Fin a, Fin b) \<Rightarrow> js_div a b
      | (Fin a, PosInf) \<Rightarrow> Fin 0
      | (Fin a, NegInf) \<Rightarrow> Fin 0
      | (PosInf, Fin b) \<Rightarrow> (if 0 \<le> b then PosInf else NegInf)
      | (NegInf, Fin b) \<Rightarrow> (if 0 \<le> b then NegInf else PosInf)
      | _ \<Rightarrow> NaN)"

fun js_minus :: "jsnum \<Rightarrow> jsnum \<Rightarrow> jsnum" where
  "js_minus (Fin a) (Fin b) = Fin (a - b)"
| "js_minus NaN y = NaN"
| "js_minus x NaN = NaN"
| "js_minus PosInf PosInf = NaN"
| "js_minus NegInf NegInf = NaN"
| "js_minus PosInf y = PosInf"
| "js_minus NegInf y = NegInf"
| "js_minus x PosInf = NegInf"
| "js_minus x NegInf = PosInf"

fun js_abs :: "jsnum \<Rightarrow> jsnum" where
  "js_abs (Fin a) = Fin \<bar>a\<bar>"
| "js_abs PosInf = PosInf"
| "js_abs NegInf = PosInf"
| "js_abs NaN = NaN"

fun js_gt :: "jsnum \<Rightarrow> real \<Rightarrow> bool" where
  "js_gt (Fin x) y = (y < x)"
| "js_gt PosInf y = True"
| "js_gt NegInf y = False"
| "js_gt NaN y = False"

fun js_lt :: "jsnum \<Rightarrow> real \<Rightarrow> bool" where
  "js_lt (Fin x) y = (x < y)"
| "js_lt PosInf y = False"
| "js_lt NegInf y = True"
| "js_lt NaN y = False"

text \<open>\<^verbatim>\<open>x || d\<close> on numbers: \<^verbatim>\<open>NaN\<close> and zero are falsy.\<close>

fun js_orElse :: "jsnum \<Rightarrow> real \<Rightarrow> jsnum" where
  "js_orElse (Fin x) d = (if x = 0 then Fin d else Fin x)"
| "js_orElse NaN d = Fin d"
| "js_orElse PosInf d = PosInf"
| "js_orElse NegInf d = NegInf"

text \<open>
  A value of type \<^verbatim>\<open>any\<close>: the primitives an invoice field can hold and
  \<^verbatim>\<open>Date\<close> objects, whose time value is \<open>None\<close> for an invalid date.
  A string is the list of its code units, taken to be eight bits wide; the three glyphs
  outside that range that the explanations print are written as their UTF-8 bytes.
\<close>

datatype jsval = VNull | VBool bool | VNum jsnum | VStr string | VDate "int option"

text \<open>A thrown \<^verbatim>\<open>Error\<close> object, with its message.\<close>

datatype error = Error string

fun message :: "error \<Rightarrow> string" where
  "message (Error m) = m"

text \<open>\<^verbatim>\<open>`${error}`\<close> for an \<^verbatim>\<open>Error\<close> object.\<close>

fun errorToString :: "error \<Rightarrow> string" where
  "errorToString (Error m) = ''Error: '' @ m"

text \<open>A string in a condition: \<^verbatim>\<open>undefined\<close> and the empty string are falsy.\<close>

fun truthy :: "string option \<Rightarrow> bool" where
  "truthy None = False"
| "truthy (Some s) = (s \<noteq> [])"

text \<open>
  Built-in functions of the JavaScript runtime whose results are text, clock readings or
  random draws, with parsing and regular-expression replacement (\<open>None\<close> when the
  pattern does not compile).  They are parameters of the model.
\<close>

record js_builtins =
  toFixed :: "real \<Rightarrow> nat \<Rightarrow> string"
  numberToString :: "real \<Rightarrow> string"
  toUpperCase :: "string \<Rightarrow> string"
  dateNow :: int
  toISOString :: "int \<Rightarrow> string"
  dateParses :: "string \<Rightarrow> bool"
  parseNumber :: "string \<Rightarrow> jsnum"
  dateToString :: "int option \<Rightarrow> string"
  dateOf :: "jsval \<Rightarrow> int option"
  randomSuffix :: string
  regexReplace :: "string \<Rightarrow> string \<Rightarrow> string \<Rightarrow> string option"






text \<open>\<^verbatim>\<open>parts.join(sep)\<close>\<close>

fun join :: "string \<Rightarrow> string list \<Rightarrow> string" where
  "join sep [] = []"
| "join sep [x] = x"
| "join sep (x # y # ys) = x @ sep @ join sep (y # ys)"

section \<open>Interfaces\<close>

text \<open>Field names carry a prefix naming their interface, since several interfaces share them.\<close>

record ProposedCorrection =
  pc_field :: string
  pc_originalValue :: jsval
  pc_correctedValue :: jsval
  pc_confidence :: real
  pc_memorySourceId :: string
  pc_reasoning :: string

record NormalizationRule =
  nr_fieldName :: string
  nr_pattern :: string
  nr_replacement :: string
  nr_confidenceScore :: real

record VendorMemory =
  vm_id :: string
  vm_vendorName :: string
  vm_fieldMappings :: "(string \<times> string) list"
  vm_normalizationRules :: "NormalizationRule list"
  vm_confidenceScore :: real
  vm_usageCount :: nat
  vm_lastUsed :: int
  vm_createdAt :: int

record CorrectionMemory =
  cm_id :: string
  cm_originalValue :: string
  cm_correctedValue :: string
  cm_fieldName :: string
  cm_vendorName :: "string option"
  cm_confidenceScore :: real
  cm_approvalCount :: nat
  cm_rejectionCount :: nat
  cm_createdAt :: int

datatype action = AutoAccept | AutoCorrect | HumanReview

record ResolutionMemory =
  rm_id :: string
  rm_invoicePattern :: string
  rm_decision :: action
  rm_confidenceScore :: real
  rm_outcomeSuccess :: bool
  rm_reasoning :: string
  rm_createdAt :: int

record MemoryInsights =
  vendorPatterns :: "VendorMemory list"
  suggestedCorrections :: "CorrectionMemory list"
  historicalResolutions :: "ResolutionMemory list"
  overallConfidence :: real
  mi_reasoning :: "string list"

record LineItem =
  li_description :: string
  li_quantity :: real
  li_unitPrice :: real
  li_totalPrice :: real
  li_category :: "string option"

record ProcessingMetadata =
  receivedAt :: int
  processingStarted :: int
  md_confidenceScore :: "real option"
  md_memorySourceIds :: "string list"
  humanReviewRequired :: bool

record Invoice =
  inv_id :: string
  inv_vendorName :: string
  inv_invoiceNumber :: string
  inv_amount :: jsnum
  inv_date :: "int option"
  inv_lineItems :: "LineItem list"
  inv_rawFields :: "(string \<times> jsval) list"
  inv_processingMetadata :: ProcessingMetadata

section \<open>DecisionEngine\<close>

record DecisionThresholds =
  autoAccept :: real
  autoCorrect :: real
  humanReview :: real

definition defaultThresholds :: DecisionThresholds where
  "defaultThresholds = \<lparr>autoAccept = 0.85, autoCorrect = 0.65, humanReview = 0.65\<rparr>"

record ThresholdAnalysis =
  autoAcceptThreshold :: real
  autoCorrectThreshold :: real
  humanReviewThreshold :: real
  actualConfidence :: real
  exceedsAutoAccept :: bool
  exceedsAutoCorrect :: bool

record ProcessingDecision =
  pd_action :: action
  pd_confidenceScore :: real
  pd_reasoning :: string
  pd_appliedCorrections :: "ProposedCorrection list"
  pd_memorySourceIds :: "string list"
  pd_safetyConstraints :: "string list"
  pd_thresholdAnalysis :: ThresholdAnalysis

definition evaluateConfidenceThresholds :: "DecisionThresholds \<Rightarrow> real \<Rightarrow> ThresholdAnalysis" where
  "evaluateConfidenceThresholds th confidenceScore =
     \<lparr>autoAcceptThreshold = autoAccept th,
      autoCorrectThreshold = autoCorrect th,
      humanReviewThreshold = humanReview th,
      actualConfidence = confidenceScore,
      exceedsAutoAccept = (autoAccept th \<le> confidenceScore),
      exceedsAutoCorrect = (autoCorrect th \<le> confidenceScore)\<rparr>"

definition criticalFields :: "string list" where
  "criticalFields = [''amount'', ''vendorName'', ''invoiceNumber'']"

text \<open>
  The predicate of the \<^verbatim>\<open>largeValueChanges\<close> filter.  The quotient is a JavaScript
  division: for an original amount of zero it is \<^verbatim>\<open>Infinity\<close> or \<^verbatim>\<open>NaN\<close>.
\<close>

definition isLargeValueChange :: "ProposedCorrection \<Rightarrow> bool" where
  "isLargeValueChange c =
     (case (pc_field c = ''amount'', pc_originalValue c, pc_correctedValue c) of
        (True, VNum orig, VNum corr) \<Rightarrow> js_gt (js_divide (js_abs (js_minus corr orig)) orig) 0.2
      | _ \<Rightarrow> False)"

definition applySafetyConstraints ::
  "DecisionThresholds \<Rightarrow> ProposedCorrection list \<Rightarrow> real \<Rightarrow> string list" where
  "applySafetyConstraints th proposedCorrections confidenceScore =
     (let lowConfidenceCorrections =
            filter (\<lambda>c. pc_confidence c < autoCorrect th) proposedCorrections;
          highConfidenceCorrections =
            filter (\<lambda>c. autoAccept th \<le> pc_confidence c) proposedCorrections;
          criticalFieldCorrections =
            filter (\<lambda>c. pc_field c \<in> set criticalFields \<and> pc_confidence c < autoAccept th)
              proposedCorrections;
          largeValueChanges = filter isLargeValueChange proposedCorrections
      in (if 0 < length lowConfidenceCorrections
          then [''low-confidence-corrections-blocked''] else [])
       @ (if 5 < length highConfidenceCorrections then [''too-many-corrections''] else [])
       @ (if 0 < length criticalFieldCorrections then [''critical-field-protection''] else [])
       @ (if 0 < length largeValueChanges then [''large-value-change''] else [])
       @ (if confidenceScore < humanReview th then [''overall-low-confidence''] else []))"

definition blockingConstraints :: "string list" where
  "blockingConstraints =
     [''too-many-corrections'', ''critical-field-protection'', ''large-value-change'',
      ''overall-low-confidence'', ''error-fallback'']"

definition determineAction ::
  "DecisionThresholds \<Rightarrow> ThresholdAnalysis \<Rightarrow> string list \<Rightarrow> ProposedCorrection list \<Rightarrow> action" where
  "determineAction th thresholdAnalysis safetyConstraints proposedCorrections =
     (if list_ex (\<lambda>constraint. constraint \<in> set blockingConstraints) safetyConstraints
      then HumanReview
      else
        let safeCorrections =
              filter (\<lambda>c. autoAccept th \<le> pc_confidence c \<and> pc_field c \<notin> set criticalFields)
                proposedCorrections
        in if exceedsAutoAccept thresholdAnalysis
              \<and> (length proposedCorrections = 0 \<or> 0 < length safeCorrections)
           then AutoAccept
           else if exceedsAutoCorrect thresholdAnalysis then AutoCorrect
           else HumanReview)"

fun filterCorrectionsForAction ::
  "DecisionThresholds \<Rightarrow> action \<Rightarrow> ProposedCorrection list \<Rightarrow> string list \<Rightarrow> ProposedCorrection list" where
  "filterCorrectionsForAction th AutoAccept proposedCorrections safetyConstraints =
     filter (\<lambda>c. autoAccept th \<le> pc_confidence c
                \<and> pc_field c \<notin> set criticalFields
                \<and> ''low-confidence-corrections-blocked'' \<notin> set safetyConstraints)
       proposedCorrections"
| "filterCorrectionsForAction th AutoCorrect proposedCorrections safetyConstraints =
     filter (\<lambda>c. autoCorrect th \<le> pc_confidence c
                \<and> ''critical-field-protection'' \<notin> set safetyConstraints
                \<and> ''large-value-change'' \<notin> set safetyConstraints)
       proposedCorrections"
| "filterCorrectionsForAction th HumanReview proposedCorrections safetyConstraints = []"

text \<open>\<^verbatim>\<open>Array.from(new Set(...))\<close>: the first occurrence of every id, in insertion order.\<close>

definition setAdd :: "string list \<Rightarrow> string \<Rightarrow> string list" where
  "setAdd sourceIds x = (if x \<in> set sourceIds then sourceIds else sourceIds @ [x])"

definition extractMemorySourceIds :: "MemoryInsights \<Rightarrow> ProposedCorrection list \<Rightarrow> string list" where
  "extractMemorySourceIds insights corrections =
     foldl setAdd []
       (map vm_id (vendorPatterns insights)
        @ map cm_id (suggestedCorrections insights)
        @ map rm_id (historicalResolutions insights)
        @ map pc_memorySourceId corrections)"

definition geSign :: string where
  "geSign = [CHR 0xE2, CHR 0x89, CHR 0xA5]"

definition checkMark :: string where
  "checkMark = [CHR 0xE2, CHR 0x9C, CHR 0x93]"

definition crossMark :: string where
  "crossMark = [CHR 0xE2, CHR 0x9C, CHR 0x97]"

definition generateExplanation ::
  "js_builtins \<Rightarrow> DecisionThresholds \<Rightarrow> action \<Rightarrow> real \<Rightarrow> ThresholdAnalysis \<Rightarrow> string list
     \<Rightarrow> ProposedCorrection list \<Rightarrow> MemoryInsights \<Rightarrow> ProposedCorrection list \<Rightarrow> string" where
  "generateExplanation js th act confidenceScore thresholdAnalysis safetyConstraints
       appliedCorrections insights proposedCorrections =
     (let pct = (\<lambda>x d. toFixed js (x * 100) d);
          len = (\<lambda>n. numberToString js (real n));
          highConfidenceCorrections =
            filter (\<lambda>c. autoAccept th \<le> pc_confidence c) proposedCorrections;
          mediumConfidenceCorrections =
            filter (\<lambda>c. autoCorrect th \<le> pc_confidence c \<and> pc_confidence c < autoAccept th)
              proposedCorrections
      in join '' | ''
        ([''Confidence Analysis: Overall confidence score is '' @ pct confidenceScore 1 @ ''% ''
            @ ''(Auto-accept: '' @ geSign @ pct (autoAcceptThreshold thresholdAnalysis) 0 @ ''%, ''
            @ ''Auto-correct: '' @ geSign @ pct (autoCorrectThreshold thresholdAnalysis) 0 @ ''%, ''
            @ ''Human review: <'' @ pct (humanReviewThreshold thresholdAnalysis) 0 @ ''%)'',
          ''Memory Insights: Found '' @ len (length (vendorPatterns insights))
            @ '' vendor pattern(s), '' @ len (length (suggestedCorrections insights))
            @ '' correction suggestion(s), '' @ len (length (historicalResolutions insights))
            @ '' historical resolution(s)'',
          (if exceedsAutoAccept thresholdAnalysis
           then checkMark @ '' Exceeds auto-accept threshold (''
                  @ pct (autoAcceptThreshold thresholdAnalysis) 0 @ ''%)''
           else if exceedsAutoCorrect thresholdAnalysis
           then checkMark @ '' Exceeds auto-correct threshold (''
                  @ pct (autoCorrectThreshold thresholdAnalysis) 0 @ ''%)''
           else crossMark @ '' Below auto-correct threshold, requires human review'')]
         @ (if 0 < length safetyConstraints
            then [''Safety Constraints Applied: '' @ join '', '' safetyConstraints] else [])
         @ (if 0 < length proposedCorrections
            then [''Corrections: '' @ len (length proposedCorrections) @ '' proposed ''
                    @ ''('' @ len (length highConfidenceCorrections) @ '' high-confidence, ''
                    @ len (length mediumConfidenceCorrections) @ '' medium-confidence)'']
            else [])
         @ [case act of
              AutoAccept \<Rightarrow>
                ''Decision: AUTO-ACCEPT - High confidence ('' @ pct confidenceScore 1 @ ''%) ''
                  @ ''with '' @ len (length appliedCorrections)
                  @ '' applied correction(s). Processing automatically.''
            | AutoCorrect \<Rightarrow>
                ''Decision: AUTO-CORRECT - Medium confidence ('' @ pct confidenceScore 1 @ ''%) ''
                  @ ''with '' @ len (length appliedCorrections)
                  @ '' proposed correction(s). Corrections applied, human review recommended.''
            | HumanReview \<Rightarrow>
                ''Decision: HUMAN-REVIEW - Low confidence ('' @ pct confidenceScore 1 @ ''%) ''
                  @ ''or safety constraints require human oversight.'']
         @ (if 0 < length (mi_reasoning insights)
            then [''Memory Analysis: '' @ join ''; '' (mi_reasoning insights)] else [])))"

text \<open>
  \<^verbatim>\<open>makeProcessingDecision\<close>.  Its body is wrapped in a \<^verbatim>\<open>try\<close> whose handler
  returns the human-review decision \<open>errorFallback\<close>; on values of the declared
  types none of the steps of the body raises, so the body is the function.
\<close>

definition errorFallback :: "DecisionThresholds \<Rightarrow> string \<Rightarrow> ProcessingDecision" where
  "errorFallback th err =
     \<lparr>pd_action = HumanReview,
      pd_confidenceScore = 0,
      pd_reasoning = ''Error in decision processing: '' @ err
                      @ ''. Defaulting to human review for safety.'',
      pd_appliedCorrections = [],
      pd_memorySourceIds = [],
      pd_safetyConstraints = [''error-fallback''],
      pd_thresholdAnalysis =
        \<lparr>autoAcceptThreshold = autoAccept th,
         autoCorrectThreshold = autoCorrect th,
         humanReviewThreshold = humanReview th,
         actualConfidence = 0,
         exceedsAutoAccept = False,
         exceedsAutoCorrect = False\<rparr>\<rparr>"

definition makeProcessingDecision ::
  "js_builtins \<Rightarrow> DecisionThresholds \<Rightarrow> Invoice \<Rightarrow> MemoryInsights \<Rightarrow> ProposedCorrection list
     \<Rightarrow> ProcessingDecision" where
  "makeProcessingDecision js th invoice insights proposedCorrections =
     (let confidenceScore = overallConfidence insights;
          memorySourceIds = extractMemorySourceIds insights proposedCorrections;
          thresholdAnalysis = evaluateConfidenceThresholds th confidenceScore;
          safetyConstraints = applySafetyConstraints th proposedCorrections confidenceScore;
          act = determineAction th thresholdAnalysis safetyConstraints proposedCorrections;
          appliedCorrections =
            filterCorrectionsForAction th act proposedCorrections safetyConstraints;
          reasoning = generateExplanation js th act confidenceScore thresholdAnalysis
                        safetyConstraints appliedCorrections insights proposedCorrections
      in \<lparr>pd_action = act,
          pd_confidenceScore = confidenceScore,
          pd_reasoning = reasoning,
          pd_appliedCorrections = appliedCorrections,
          pd_memorySourceIds = memorySourceIds,
          pd_safetyConstraints = safetyConstraints,
          pd_thresholdAnalysis = thresholdAnalysis\<rparr>)"

section \<open>RecallEngine\<close>

text \<open>
  \<^verbatim>\<open>calculateOverallConfidence\<close>.  Each \<^verbatim>\<open>reduce\<close> is a left fold from its
  initial value; the usage counters are counts, so the first divisor is at least one.
\<close>

definition calculateOverallConfidence ::
  "VendorMemory list \<Rightarrow> CorrectionMemory list \<Rightarrow> ResolutionMemory list \<Rightarrow> real" where
  "calculateOverallConfidence vendorPatterns' corrections resolutions =
     (let totalWeight = 0; weightedSum = 0;
          (totalWeight, weightedSum) =
            (if 0 < length vendorPatterns' then
               let vendorConfidence =
                     foldl (\<lambda>sum pattern.
                              sum + vm_confidenceScore pattern * real (vm_usageCount pattern))
                       0 vendorPatterns'
                     / foldl (\<lambda>sum pattern. sum + real (vm_usageCount pattern)) 1 vendorPatterns'
               in (totalWeight + 0.5, weightedSum + vendorConfidence * 0.5)
             else (totalWeight, weightedSum));
          (totalWeight, weightedSum) =
            (if 0 < length corrections then
               let correctionConfidence =
                     foldl (\<lambda>sum correction. sum + cm_confidenceScore correction) 0 corrections
                     / real (length corrections)
               in (totalWeight + 0.3, weightedSum + correctionConfidence * 0.3)
             else (totalWeight, weightedSum));
          (totalWeight, weightedSum) =
            (if 0 < length resolutions then
               let resolutionConfidence =
                     foldl (\<lambda>sum resolution. sum + rm_confidenceScore resolution) 0 resolutions
                     / real (length resolutions)
               in (totalWeight + 0.2, weightedSum + resolutionConfidence * 0.2)
             else (totalWeight, weightedSum))
      in if 0 < totalWeight then min 1 (weightedSum / totalWeight) else 0.1)"

definition generateInsightReasoning ::
  "js_builtins \<Rightarrow> VendorMemory list \<Rightarrow> CorrectionMemory list \<Rightarrow> ResolutionMemory list \<Rightarrow> real
     \<Rightarrow> string list" where
  "generateInsightReasoning js vendorPatterns' corrections resolutions overallConfidence' =
     (let len = (\<lambda>n. numberToString js (real n)) in
      [if 0 < length vendorPatterns' then
         let avgConfidence =
               foldl (\<lambda>sum p. sum + vm_confidenceScore p) 0 vendorPatterns'
               / real (length vendorPatterns');
             totalUsage = foldl (\<lambda>sum p. sum + vm_usageCount p) 0 vendorPatterns'
         in ''Found '' @ len (length vendorPatterns')
              @ '' vendor pattern(s) with average confidence '' @ toFixed js avgConfidence 2
              @ '' '' @ ''and total usage count '' @ len totalUsage
       else ''No vendor-specific patterns found - using default processing'',
       if 0 < length corrections then
         let highConfidenceCorrections =
               length (filter (\<lambda>c. 0.7 \<le> cm_confidenceScore c) corrections)
         in ''Found '' @ len (length corrections) @ '' relevant correction(s), ''
              @ len highConfidenceCorrections @ '' with high confidence ('' @ geSign @ ''0.7)''
       else ''No relevant correction patterns found'',
       if 0 < length resolutions then
         let successfulResolutions = length (filter rm_outcomeSuccess resolutions)
         in ''Found '' @ len (length resolutions) @ '' similar resolution(s), ''
              @ len successfulResolutions @ '' were successful''
       else ''No similar resolution patterns found'',
       if 0.85 \<le> overallConfidence' then ''High confidence - suitable for auto-processing''
       else if 0.65 \<le> overallConfidence' then ''Medium confidence - corrections may be proposed''
       else ''Low confidence - human review recommended''])"

text \<open>
  The part of \<^verbatim>\<open>getConfidenceWeightedInsights\<close> that follows the three retrievals
  from the memory store: the insights built from the retrieved lists.
\<close>

definition insightsFrom ::
  "js_builtins \<Rightarrow> VendorMemory list \<Rightarrow> CorrectionMemory list \<Rightarrow> ResolutionMemory list
     \<Rightarrow> MemoryInsights" where
  "insightsFrom js vendorPatterns' suggestedCorrections' historicalResolutions' =
     (let overallConfidence' =
            calculateOverallConfidence vendorPatterns' suggestedCorrections' historicalResolutions';
          reasoning =
            generateInsightReasoning js vendorPatterns' suggestedCorrections'
              historicalResolutions' overallConfidence'
      in \<lparr>vendorPatterns = vendorPatterns',
          suggestedCorrections = suggestedCorrections',
          historicalResolutions = historicalResolutions',
          overallConfidence = overallConfidence',
          mi_reasoning = reasoning\<rparr>)"

section \<open>MemoryStore\<close>

text \<open>
  The four tables of the store, each the list of its rows, and the connection pool
  (\<open>pool\<close> is false while it is \<^verbatim>\<open>null\<close>).  A query on an initialised pool is
  answered from the tables; a transaction that raises leaves them as they were.
\<close>

datatype snapshot =
    VendorState VendorMemory
  | CorrectionState CorrectionMemory
  | ResolutionState ResolutionMemory

record AuditLog =
  al_id :: string
  al_operation :: string
  al_entityType :: string
  al_entityId :: string
  al_beforeState :: "snapshot option"
  al_afterState :: "snapshot option"
  al_reasoning :: string
  al_confidenceScore :: "real option"
  al_timestamp :: "int option"

record MemoryStore =
  pool :: bool
  vendor_memory :: "VendorMemory list"
  correction_memory :: "CorrectionMemory list"
  resolution_memory :: "ResolutionMemory list"
  audit_logs :: "AuditLog list"

definition auditId :: "js_builtins \<Rightarrow> string" where
  "auditId js = ''audit_'' @ numberToString js (real_of_int (dateNow js)) @ ''_'' @ randomSuffix js"

text \<open>
  A value assigned to a \<^verbatim>\<open>DECIMAL(3,2)\<close> column is rounded to two decimals, half away
  from zero, and has to pass the column's \<^verbatim>\<open>CHECK\<close>.
\<close>

definition numeric32 :: "real \<Rightarrow> real" where
  "numeric32 x =
     (if 0 \<le> x then real_of_int \<lfloor>x * 100 + 1 / 2\<rfloor> / 100
      else - real_of_int \<lfloor>- x * 100 + 1 / 2\<rfloor> / 100)"

definition checkConfidence :: "real \<Rightarrow> bool" where
  "checkConfidence x = (0 \<le> x \<and> x \<le> 1)"

definition getClient :: "MemoryStore \<Rightarrow> error + unit" where
  "getClient store =
     (if \<not> pool store
      then Inl (Error ''Database pool not initialized. Call initialize() first.'')
      else Inr ())"

text \<open>
  \<^verbatim>\<open>logAuditEntry\<close>: the \<^verbatim>\<open>INSERT\<close> into \<^verbatim>\<open>audit_logs\<close>, where a
  confidence score of zero is stored as \<^verbatim>\<open>NULL\<close>.
\<close>

definition logAuditEntry :: "MemoryStore \<Rightarrow> AuditLog \<Rightarrow> MemoryStore" where
  "logAuditEntry store auditLog =
     store\<lparr>audit_logs := audit_logs store
        @ [auditLog\<lparr>al_confidenceScore :=
             (case al_confidenceScore auditLog of
                None \<Rightarrow> None
              | Some c \<Rightarrow> if c = 0 then None else Some c)\<rparr>]\<rparr>"

definition logMemoryAccess :: "js_builtins \<Rightarrow> MemoryStore \<Rightarrow> string \<Rightarrow> string \<Rightarrow> nat \<Rightarrow> MemoryStore" where
  "logMemoryAccess js store entityType searchKey resultCount =
     (if pool store then
        store\<lparr>audit_logs := audit_logs store
           @ [\<lparr>al_id = auditId js,
               al_operation = ''memory_access'',
               al_entityType = entityType,
               al_entityId = searchKey,
               al_beforeState = None,
               al_afterState = None,
               al_reasoning = ''Retrieved '' @ numberToString js (real resultCount) @ '' ''
                                @ entityType @ '' records for key: '' @ searchKey,
               al_confidenceScore = None,
               al_timestamp = Some (dateNow js)\<rparr>]\<rparr>
      else store)"

text \<open>\<^verbatim>\<open>ORDER BY confidence_score DESC, created_at DESC\<close>, by two stable sorts.\<close>

definition orderCorrections :: "CorrectionMemory list \<Rightarrow> CorrectionMemory list" where
  "orderCorrections rows =
     sort_key (\<lambda>r. - cm_confidenceScore r) (sort_key (\<lambda>r. - cm_createdAt r) rows)"

definition getCorrectionMemory ::
  "js_builtins \<Rightarrow> MemoryStore \<Rightarrow> string \<Rightarrow> string option
     \<Rightarrow> error + (CorrectionMemory list \<times> MemoryStore)" where
  "getCorrectionMemory js store fieldName vendorName =
     (case getClient store of
        Inl e \<Rightarrow> Inl e
      | Inr _ \<Rightarrow>
          let correctionMemories =
                orderCorrections
                  (filter (\<lambda>r. cm_fieldName r = fieldName
                              \<and> (truthy vendorName \<longrightarrow>
                                   cm_vendorName r = vendorName \<or> cm_vendorName r = None))
                     (correction_memory store));
              store' =
                logMemoryAccess js store ''correction_memory''
                  (fieldName @ '':''
                     @ (case vendorName of None \<Rightarrow> ''any''
                        | Some v \<Rightarrow> if v \<noteq> [] then v else ''any''))
                  (length correctionMemories)
          in Inr (correctionMemories, store'))"

text \<open>
  \<^verbatim>\<open>updateCorrectionMemoryFeedback\<close>: one transaction that reads the row, updates it,
  reads it again and writes the audit entry.
\<close>

definition feedbackUpdate :: "bool \<Rightarrow> CorrectionMemory \<Rightarrow> CorrectionMemory" where
  "feedbackUpdate approved r =
     (if approved then
        r\<lparr>cm_approvalCount := cm_approvalCount r + 1,
          cm_confidenceScore := numeric32 (min 1 (cm_confidenceScore r + 0.1))\<rparr>
      else
        r\<lparr>cm_rejectionCount := cm_rejectionCount r + 1,
          cm_confidenceScore := numeric32 (max 0 (cm_confidenceScore r - 0.15))\<rparr>)"

definition updateCorrectionMemoryFeedback ::
  "js_builtins \<Rightarrow> MemoryStore \<Rightarrow> string \<Rightarrow> bool \<Rightarrow> error + MemoryStore" where
  "updateCorrectionMemoryFeedback js store correctionId approved =
     (case getClient store of
        Inl e \<Rightarrow> Inl e
      | Inr _ \<Rightarrow>
          let beforeState = find (\<lambda>r. cm_id r = correctionId) (correction_memory store);
              rows = map (\<lambda>r. if cm_id r = correctionId then feedbackUpdate approved r else r)
                       (correction_memory store)
          in if \<not> list_all (\<lambda>r. cm_id r = correctionId \<longrightarrow> checkConfidence (cm_confidenceScore r))
                     rows
             then Inl (Error ''new row for relation correction_memory violates check constraint'')
             else
               let afterState = find (\<lambda>r. cm_id r = correctionId) rows
               in Inr (logAuditEntry (store\<lparr>correction_memory := rows\<rparr>)
                    \<lparr>al_id = auditId js,
                     al_operation = ''update_correction_feedback'',
                     al_entityType = ''correction_memory'',
                     al_entityId = correctionId,
                     al_beforeState = map_option CorrectionState beforeState,
                     al_afterState = map_option CorrectionState afterState,
                     al_reasoning = ''Updated correction memory based on ''
                                      @ (if approved then ''positive'' else ''negative'')
                                      @ '' feedback'',
                     al_confidenceScore =
                       Some (case afterState of None \<Rightarrow> 0 | Some r \<Rightarrow> cm_confidenceScore r),
                     al_timestamp = Some (dateNow js)\<rparr>))"

definition updateVendorMemoryUsage :: "js_builtins \<Rightarrow> MemoryStore \<Rightarrow> string \<Rightarrow> error + MemoryStore" where
  "updateVendorMemoryUsage js store vendorMemoryId =
     (case getClient store of
        Inl e \<Rightarrow> Inl e
      | Inr _ \<Rightarrow>
          Inr (logAuditEntry
                 (store\<lparr>vendor_memory :=
                    map (\<lambda>r. if vm_id r = vendorMemoryId
                              then r\<lparr>vm_usageCount := vm_usageCount r + 1,
                                     vm_lastUsed := dateNow js\<rparr>
                              else r)
                      (vendor_memory store)\<rparr>)
                 \<lparr>al_id = auditId js,
                  al_operation = ''update_vendor_usage'',
                  al_entityType = ''vendor_memory'',
                  al_entityId = vendorMemoryId,
                  al_beforeState = None,
                  al_afterState = None,
                  al_reasoning = ''Updated usage count and last used timestamp'',
                  al_confidenceScore = None,
                  al_timestamp = Some (dateNow js)\<rparr>))"

text \<open>
  A confidence as a row holds it: within the column's \<^verbatim>\<open>CHECK\<close> and with two
  decimals.  \<open>approvedRow\<close> and \<open>rejectedRow\<close> are the row after an approval and
  after a rejection as the specification describes them.
\<close>

definition storedConfidence :: "real \<Rightarrow> bool" where
  "storedConfidence c \<longleftrightarrow> 0 \<le> c \<and> c \<le> 1 \<and> numeric32 c = c"

definition approvedRow :: "CorrectionMemory \<Rightarrow> CorrectionMemory" where
  "approvedRow r =
     r\<lparr>cm_approvalCount := cm_approvalCount r + 1,
       cm_confidenceScore := min 1 (cm_confidenceScore r + 0.1)\<rparr>"

definition rejectedRow :: "CorrectionMemory \<Rightarrow> CorrectionMemory" where
  "rejectedRow r =
     r\<lparr>cm_rejectionCount := cm_rejectionCount r + 1,
       cm_confidenceScore := max 0 (cm_confidenceScore r - 0.15)\<rparr>"



section \<open>ApplyEngine\<close>








text \<open>
  \<^verbatim>\<open>levenshteinDistance\<close>: the matrix is a list of rows, written cell by cell as the
  loops of the code do; \<^verbatim>\<open>matrix[j][i]\<close> is read with \<open>matGet\<close> and written with
  \<open>matSet\<close>.  Every index the loops use is inside the matrix.
\<close>

definition matGet :: "nat list list \<Rightarrow> nat \<Rightarrow> nat \<Rightarrow> nat" where
  "matGet matrix j i = matrix ! j ! i"

definition matSet :: "nat list list \<Rightarrow> nat \<Rightarrow> nat \<Rightarrow> nat \<Rightarrow> nat list list" where
  "matSet matrix j i v = matrix[j := (matrix ! j)[i := v]]"

definition levCell :: "string \<Rightarrow> string \<Rightarrow> nat \<Rightarrow> nat list list \<Rightarrow> nat \<Rightarrow> nat list list" where
  "levCell str1 str2 j matrix i =
     (let indicator = (if str1 ! (i - 1) = str2 ! (j - 1) then 0 else 1)
      in matSet matrix j i
           (min (min (matGet matrix j (i - 1) + 1) (matGet matrix (j - 1) i + 1))
              (matGet matrix (j - 1) (i - 1) + indicator)))"

definition levenshteinDistance :: "string \<Rightarrow> string \<Rightarrow> nat" where
  "levenshteinDistance str1 str2 =
     (let matrix = replicate (length str2 + 1) (replicate (length str1 + 1) 0);
          matrix = foldl (\<lambda>matrix i. matSet matrix 0 i i) matrix [0..<length str1 + 1];
          matrix = foldl (\<lambda>matrix j. matSet matrix j 0 j) matrix [0..<length str2 + 1];
          matrix = foldl (\<lambda>matrix j. foldl (levCell str1 str2 j) matrix [1..<length str1 + 1])
                     matrix [1..<length str2 + 1]
      in matGet matrix (length str2) (length str1))"

definition calculateStringSimilarity :: "string \<Rightarrow> string \<Rightarrow> real" where
  "calculateStringSimilarity str1 str2 =
     (let longer = (if length str2 < length str1 then str1 else str2);
          shorter = (if length str2 < length str1 then str2 else str1)
      in if length longer = 0 then 1
         else
           let editDistance = levenshteinDistance longer shorter
           in (real (length longer) - real editDistance) / real (length longer))"



section \<open>LearningEngine\<close>

record LearningFeedback =
  fb_invoiceId :: string
  fb_correctionId :: "string option"
  fb_vendorMemoryId :: "string option"
  fb_resolutionMemoryId :: "string option"
  fb_approved :: bool
  fb_reasoning :: "string option"
  fb_timestamp :: "int option"

datatype eventType = PositiveReinforcement | NegativeReinforcement | NewPattern | PatternConsolidation

datatype memoryType = VendorType | CorrectionType | ResolutionType

record LearningEvent =
  le_id :: string
  le_invoiceId :: string
  le_eventType :: eventType
  le_memoryType :: memoryType
  le_memoryId :: string
  le_confidenceChange :: real
  le_reasoning :: string
  le_timestamp :: "int option"

text \<open>
  The engine: its memory store, the set of invoices already used for learning and the
  learning events recorded so far.
\<close>

record LearningEngine =
  memoryStore :: MemoryStore
  processedInvoices :: "string set"
  learningEvents :: "LearningEvent list"

text \<open>
  The private reinforcement steps return the confidence change, or the error they raise,
  together with the store as they leave it: the audit entries of the reads that came
  before a failure stay written.
\<close>

definition reinforceCorrectionMemory ::
  "js_builtins \<Rightarrow> MemoryStore \<Rightarrow> string \<Rightarrow> bool \<Rightarrow> (error + real) \<times> MemoryStore" where
  "reinforceCorrectionMemory js store correctionId approved =
     (case getCorrectionMemory js store [] None of
        Inl e \<Rightarrow> (Inl e, store)
      | Inr (originalCorrections, store1) \<Rightarrow>
          (case find (\<lambda>c. cm_id c = correctionId) originalCorrections of
             None \<Rightarrow> (Inl (Error (''Correction memory '' @ correctionId @ '' not found'')), store1)
           | Some targetCorrection \<Rightarrow>
               let originalConfidence = cm_confidenceScore targetCorrection in
               (case updateCorrectionMemoryFeedback js store1 correctionId approved of
                  Inl e \<Rightarrow> (Inl e, store1)
                | Inr store2 \<Rightarrow>
                    (case getCorrectionMemory js store2 [] None of
                       Inl e \<Rightarrow> (Inl e, store2)
                     | Inr (updatedCorrections, store3) \<Rightarrow>
                         (case find (\<lambda>c. cm_id c = correctionId) updatedCorrections of
                            Some updatedCorrection \<Rightarrow>
                              (Inr (cm_confidenceScore updatedCorrection - originalConfidence),
                               store3)
                          | None \<Rightarrow> (Inr 0, store3))))))"

definition reinforceVendorMemory ::
  "js_builtins \<Rightarrow> MemoryStore \<Rightarrow> string \<Rightarrow> bool \<Rightarrow> real \<times> MemoryStore" where
  "reinforceVendorMemory js store vendorMemoryId approved =
     (case updateVendorMemoryUsage js store vendorMemoryId of
        Inr store' \<Rightarrow> (if approved then 0.05 else - 0.1, store')
      | Inl e \<Rightarrow> (0, store))"

definition reinforceResolutionMemory :: "string \<Rightarrow> bool \<Rightarrow> real" where
  "reinforceResolutionMemory resolutionMemoryId approved = (if approved then 0.05 else - 0.1)"

definition learningId :: "js_builtins \<Rightarrow> string" where
  "learningId js =
     ''learning_'' @ numberToString js (real_of_int (dateNow js)) @ ''_'' @ randomSuffix js"

definition reinforcementEvent ::
  "js_builtins \<Rightarrow> LearningFeedback \<Rightarrow> memoryType \<Rightarrow> string \<Rightarrow> real \<Rightarrow> string \<Rightarrow> LearningEvent" where
  "reinforcementEvent js feedback memType memId confidenceChange what =
     \<lparr>le_id = learningId js,
      le_invoiceId = fb_invoiceId feedback,
      le_eventType =
        (if fb_approved feedback then PositiveReinforcement else NegativeReinforcement),
      le_memoryType = memType,
      le_memoryId = memId,
      le_confidenceChange = confidenceChange,
      le_reasoning =
        (case fb_reasoning feedback of
           Some given \<Rightarrow>
             if given \<noteq> [] then given
             else (if fb_approved feedback then ''Approved'' else ''Rejected'') @ '' '' @ what
         | None \<Rightarrow> (if fb_approved feedback then ''Approved'' else ''Rejected'') @ '' '' @ what),
      le_timestamp = fb_timestamp feedback\<rparr>"

text \<open>The id in an optional field when the field is truthy.\<close>

fun givenId :: "string option \<Rightarrow> string option" where
  "givenId None = None"
| "givenId (Some s) = (if s \<noteq> [] then Some s else None)"

text \<open>
  \<^verbatim>\<open>reinforceMemory\<close> returns the error it raises, if any, and the engine as it leaves
  it.  An invoice already processed ends the call at once: the code writes a warning to
  the console and returns.
\<close>

definition reinforceMemory ::
  "js_builtins \<Rightarrow> LearningFeedback \<Rightarrow> LearningEngine \<Rightarrow> error option \<times> LearningEngine" where
  "reinforceMemory js feedback eng =
     (if fb_invoiceId feedback \<in> processedInvoices eng then (None, eng)
      else
        case (case givenId (fb_correctionId feedback) of
                Some correctionId \<Rightarrow>
                  (case reinforceCorrectionMemory js (memoryStore eng) correctionId
                          (fb_approved feedback) of
                     (Inl e, store) \<Rightarrow> (Inl e, store)
                   | (Inr confidenceChange, store) \<Rightarrow>
                       (Inr [reinforcementEvent js feedback CorrectionType correctionId
                               confidenceChange ''correction''], store))
              | None \<Rightarrow> (Inr [], memoryStore eng)) of
          (Inl e, store) \<Rightarrow>
            (Some (Error (''Failed to reinforce memory: '' @ errorToString e)),
             eng\<lparr>memoryStore := store\<rparr>)
        | (Inr events1, store1) \<Rightarrow>
            let (events2, store2) =
                  (case givenId (fb_vendorMemoryId feedback) of
                     Some vendorMemoryId \<Rightarrow>
                       let (confidenceChange, store) =
                             reinforceVendorMemory js store1 vendorMemoryId (fb_approved feedback)
                       in (events1 @ [reinforcementEvent js feedback VendorType vendorMemoryId
                                        confidenceChange ''vendor pattern''], store)
                   | None \<Rightarrow> (events1, store1));
                events3 =
                  (case givenId (fb_resolutionMemoryId feedback) of
                     Some resolutionMemoryId \<Rightarrow>
                       let confidenceChange =
                             reinforceResolutionMemory resolutionMemoryId (fb_approved feedback)
                       in events2 @ [reinforcementEvent js feedback ResolutionType
                                       resolutionMemoryId confidenceChange ''resolution'']
                   | None \<Rightarrow> events2)
            in (None,
                eng\<lparr>memoryStore := store2,
                    learningEvents := learningEvents eng @ events3,
                    processedInvoices := insert (fb_invoiceId feedback) (processedInvoices eng)\<rparr>))"

definition preventDuplicateLearning :: "LearningEngine \<Rightarrow> string \<Rightarrow> bool" where
  "preventDuplicateLearning eng invoiceId = (invoiceId \<in> processedInvoices eng)"

section \<open>OutputEngine\<close>

record AppliedCorrection =
  ac_field :: string
  ac_originalValue :: jsval
  ac_correctedValue :: jsval
  ac_confidence :: jsnum

record ResultInsights =
  vendorPatternsUsed :: nat
  correctionsApplied :: nat
  historicalAccuracy :: jsnum

record AuditTrailEntry =
  at_operationId :: string
  at_timestamp :: string
  at_reasoning :: string

record InvoiceProcessingResult =
  r_invoiceId :: string
  r_decision :: action
  r_confidenceScore :: jsnum
  r_reasoning :: string
  r_appliedCorrections :: "AppliedCorrection list"
  r_memoryInsights :: ResultInsights
  r_auditTrail :: "AuditTrailEntry list"

fun actionName :: "action \<Rightarrow> string" where
  "actionName AutoAccept = ''auto-accept''"
| "actionName AutoCorrect = ''auto-correct''"
| "actionName HumanReview = ''human-review''"

fun validateConfidenceScore :: "jsnum \<Rightarrow> jsnum" where
  "validateConfidenceScore NaN = Fin 0"
| "validateConfidenceScore (Fin score) = Fin (max 0 (min 1 score))"
| "validateConfidenceScore PosInf = Fin 1"
| "validateConfidenceScore NegInf = Fin 0"

text \<open>The character class \<^verbatim>\<open>[\u0000-\u001F\u007F-\u009F]\<close>.\<close>

definition isControl :: "char \<Rightarrow> bool" where
  "isControl c = ((of_char c :: nat) \<le> 0x1F \<or> (0x7F \<le> (of_char c :: nat) \<and> (of_char c :: nat) \<le> 0x9F))"

text \<open>
  \<^verbatim>\<open>sanitizeValue\<close>; \<^verbatim>\<open>toISOString\<close> raises a \<^verbatim>\<open>RangeError\<close> on an invalid
  date.
\<close>

fun sanitizeValue :: "js_builtins \<Rightarrow> jsval \<Rightarrow> error + jsval" where
  "sanitizeValue js VNull = Inr VNull"
| "sanitizeValue js (VStr s) = Inr (VStr (take 1000 (filter (\<lambda>c. \<not> isControl c) s)))"
| "sanitizeValue js (VNum x) = Inr (if x = NaN then VNull else VNum x)"
| "sanitizeValue js (VDate None) = Inl (Error ''Invalid time value'')"
| "sanitizeValue js (VDate (Some t)) = Inr (VStr (toISOString js t))"
| "sanitizeValue js (VBool b) = Inr (VBool b)"

definition sanitizeErrorMessage :: "string \<Rightarrow> string" where
  "sanitizeErrorMessage msg =
     map (\<lambda>c. if c = CHR 0x22 then CHR 0x27 else c)
       (take 200 (filter (\<lambda>c. \<not> isControl c) msg))"

definition calculateMemoryInsights ::
  "MemoryInsights \<Rightarrow> ProposedCorrection list \<Rightarrow> ResultInsights" where
  "calculateMemoryInsights insights appliedCorrections =
     (let totalPatterns = length (vendorPatterns insights)
                        + length (suggestedCorrections insights)
                        + length (historicalResolutions insights);
          successfulResolutions =
            length (filter rm_outcomeSuccess (historicalResolutions insights));
          historicalAccuracy' =
            (if 0 < totalPatterns
             then js_orElse (js_div (real successfulResolutions)
                               (real (length (historicalResolutions insights)))) 0
             else Fin 0)
      in \<lparr>vendorPatternsUsed = length (vendorPatterns insights),
          correctionsApplied = length appliedCorrections,
          historicalAccuracy = validateConfidenceScore historicalAccuracy'\<rparr>)"

fun formatAuditLogs :: "js_builtins \<Rightarrow> AuditLog list \<Rightarrow> error + AuditTrailEntry list" where
  "formatAuditLogs js [] = Inr []"
| "formatAuditLogs js (auditLog # auditLogs) =
     (case al_timestamp auditLog of
        None \<Rightarrow> Inl (Error ''Invalid time value'')
      | Some t \<Rightarrow>
          (case formatAuditLogs js auditLogs of
             Inl e \<Rightarrow> Inl e
           | Inr entries \<Rightarrow>
               Inr (\<lparr>at_operationId = al_id auditLog,
                     at_timestamp = toISOString js t,
                     at_reasoning = al_reasoning auditLog\<rparr> # entries)))"

definition formatAuditTrail ::
  "js_builtins \<Rightarrow> AuditLog list \<Rightarrow> ProcessingDecision \<Rightarrow> error + AuditTrailEntry list" where
  "formatAuditTrail js auditLogs decision =
     (case formatAuditLogs js auditLogs of
        Inl e \<Rightarrow> Inl e
      | Inr auditTrail \<Rightarrow>
          Inr (auditTrail
               @ [\<lparr>at_operationId = ''decision_'' @ numberToString js (real_of_int (dateNow js)),
                   at_timestamp = toISOString js (dateNow js),
                   at_reasoning = ''Decision made: '' @ actionName (pd_action decision)
                     @ '' with confidence '' @ toFixed js (pd_confidenceScore decision * 100) 1
                     @ ''%''\<rparr>]))"

definition createStructuredReasoning ::
  "js_builtins \<Rightarrow> ProcessingDecision \<Rightarrow> MemoryInsights \<Rightarrow> string" where
  "createStructuredReasoning js decision insights =
     join '' | ''
       ([''Decision: '' @ toUpperCase js (actionName (pd_action decision)),
         ''Confidence: '' @ toFixed js (pd_confidenceScore decision * 100) 1 @ ''%'',
         ''Memory Sources: ''
           @ numberToString js (real (length (pd_memorySourceIds decision))) @ '' pattern(s)'',
         ''Applied Corrections: ''
           @ numberToString js (real (length (pd_appliedCorrections decision))),
         pd_reasoning decision]
        @ (if 0 < length (pd_safetyConstraints decision)
           then [''Safety Constraints: '' @ join '', '' (pd_safetyConstraints decision)]
           else [])
        @ (if 0 < length (mi_reasoning insights)
           then [''Memory Analysis: '' @ join ''; '' (mi_reasoning insights)]
           else []))"

text \<open>The errors that \<^verbatim>\<open>validateOutput\<close> collects, in its order.\<close>

definition confidenceOutOfRange :: "jsnum \<Rightarrow> bool" where
  "confidenceOutOfRange x = (js_lt x 0 \<or> js_gt x 1)"

definition correctionErrors :: "js_builtins \<Rightarrow> nat \<Rightarrow> AppliedCorrection \<Rightarrow> string list" where
  "correctionErrors js index' correction =
     (if ac_field correction = []
      then [''appliedCorrections['' @ numberToString js (real index')
              @ ''].field must be a non-empty string'']
      else [])
     @ (if confidenceOutOfRange (ac_confidence correction)
        then [''appliedCorrections['' @ numberToString js (real index')
                @ ''].confidence must be a number between 0 and 1'']
        else [])"

definition auditTrailErrors :: "js_builtins \<Rightarrow> nat \<Rightarrow> AuditTrailEntry \<Rightarrow> string list" where
  "auditTrailErrors js index' entry =
     (if at_operationId entry = []
      then [''auditTrail['' @ numberToString js (real index')
              @ ''].operationId must be a non-empty string'']
      else [])
     @ (if at_timestamp entry = []
        then [''auditTrail['' @ numberToString js (real index')
                @ ''].timestamp must be a non-empty string'']
        else if \<not> dateParses js (at_timestamp entry)
        then [''auditTrail['' @ numberToString js (real index')
                @ ''].timestamp must be a valid ISO timestamp'']
        else [])
     @ (if at_reasoning entry = []
        then [''auditTrail['' @ numberToString js (real index')
                @ ''].reasoning must be a non-empty string'']
        else [])"

definition validationErrors :: "js_builtins \<Rightarrow> InvoiceProcessingResult \<Rightarrow> string list" where
  "validationErrors js result =
     (if r_invoiceId result = [] then [''invoiceId must be a non-empty string''] else [])
     @ (if confidenceOutOfRange (r_confidenceScore result)
        then [''confidenceScore must be a number between 0 and 1''] else [])
     @ (if r_reasoning result = [] then [''reasoning must be a non-empty string''] else [])
     @ concat (map (\<lambda>(index', correction). correctionErrors js index' correction)
                 (enumerate 0 (r_appliedCorrections result)))
     @ (if confidenceOutOfRange (historicalAccuracy (r_memoryInsights result))
        then [''memoryInsights.historicalAccuracy must be a number between 0 and 1''] else [])
     @ concat (map (\<lambda>(index', entry). auditTrailErrors js index' entry)
                 (enumerate 0 (r_auditTrail result)))"

definition validationWarnings :: "InvoiceProcessingResult \<Rightarrow> string list" where
  "validationWarnings result =
     (if 0 < length (r_appliedCorrections result) \<and> r_decision result = HumanReview
      then [''Applied corrections present but decision is human-review''] else [])
     @ (if js_gt (r_confidenceScore result) 0.8 \<and> r_decision result = HumanReview
        then [''High confidence score but decision is human-review''] else [])"

record OutputValidationResult =
  isValid :: bool
  errors :: "string list"
  warnings :: "string list"

definition validateOutput :: "js_builtins \<Rightarrow> InvoiceProcessingResult \<Rightarrow> OutputValidationResult" where
  "validateOutput js result =
     \<lparr>isValid = (length (validationErrors js result) = 0),
      errors = validationErrors js result,
      warnings = validationWarnings result\<rparr>"

definition createErrorOutput :: "js_builtins \<Rightarrow> string \<Rightarrow> error \<Rightarrow> InvoiceProcessingResult" where
  "createErrorOutput js invoiceId err =
     (let errorMessage = message err in
      \<lparr>r_invoiceId = (if invoiceId \<noteq> [] then invoiceId else ''unknown''),
       r_decision = HumanReview,
       r_confidenceScore = Fin 0,
       r_reasoning = ''Error occurred during processing: '' @ sanitizeErrorMessage errorMessage
                      @ ''. Defaulting to human review for safety.'',
       r_appliedCorrections = [],
       r_memoryInsights =
         \<lparr>vendorPatternsUsed = 0, correctionsApplied = 0, historicalAccuracy = Fin 0\<rparr>,
       r_auditTrail =
         [\<lparr>at_operationId = ''error_'' @ numberToString js (real_of_int (dateNow js)),
           at_timestamp = toISOString js (dateNow js),
           at_reasoning = ''Processing error: '' @ sanitizeErrorMessage errorMessage\<rparr>]\<rparr>)"

fun formatCorrections :: "js_builtins \<Rightarrow> ProposedCorrection list \<Rightarrow> error + AppliedCorrection list" where
  "formatCorrections js [] = Inr []"
| "formatCorrections js (correction # corrections) =
     (case sanitizeValue js (pc_originalValue correction) of
        Inl e \<Rightarrow> Inl e
      | Inr originalValue \<Rightarrow>
          (case sanitizeValue js (pc_correctedValue correction) of
             Inl e \<Rightarrow> Inl e
           | Inr correctedValue \<Rightarrow>
               (case formatCorrections js corrections of
                  Inl e \<Rightarrow> Inl e
                | Inr formatted \<Rightarrow>
                    Inr (\<lparr>ac_field = pc_field correction,
                          ac_originalValue = originalValue,
                          ac_correctedValue = correctedValue,
                          ac_confidence =
                            validateConfidenceScore (Fin (pc_confidence correction))\<rparr>
                         # formatted))))"

text \<open>
  The \<^verbatim>\<open>try\<close> block of \<^verbatim>\<open>createInvoiceProcessingResult\<close>: the result it builds,
  or the error raised on the way (by a date that has no ISO form, or by the validation of
  the finished result).
\<close>

definition buildResult ::
  "js_builtins \<Rightarrow> Invoice \<Rightarrow> ProcessingDecision \<Rightarrow> MemoryInsights \<Rightarrow> AuditLog list
     \<Rightarrow> error + InvoiceProcessingResult" where
  "buildResult js invoice decision insights auditLogs =
     (let validatedConfidenceScore =
            validateConfidenceScore (Fin (pd_confidenceScore decision))
      in case formatCorrections js (pd_appliedCorrections decision) of
           Inl e \<Rightarrow> Inl e
         | Inr appliedCorrections \<Rightarrow>
             let memoryInsights =
                   calculateMemoryInsights insights (pd_appliedCorrections decision)
             in (case formatAuditTrail js auditLogs decision of
                   Inl e \<Rightarrow> Inl e
                 | Inr auditTrail \<Rightarrow>
                     let structuredReasoning = createStructuredReasoning js decision insights;
                         result =
                           \<lparr>r_invoiceId = inv_id invoice,
                            r_decision = pd_action decision,
                            r_confidenceScore = validatedConfidenceScore,
                            r_reasoning = structuredReasoning,
                            r_appliedCorrections = appliedCorrections,
                            r_memoryInsights = memoryInsights,
                            r_auditTrail = auditTrail\<rparr>;
                         validation = validateOutput js result
                     in if \<not> isValid validation
                        then Inl (Error (''Output validation failed: ''
                                           @ join '', '' (errors validation)))
                        else Inr result))"

definition createInvoiceProcessingResult ::
  "js_builtins \<Rightarrow> Invoice \<Rightarrow> ProcessingDecision \<Rightarrow> MemoryInsights \<Rightarrow> AuditLog list
     \<Rightarrow> InvoiceProcessingResult" where
  "createInvoiceProcessingResult js invoice decision insights auditLogs =
     (case buildResult js invoice decision insights auditLogs of
        Inr result \<Rightarrow> result
      | Inl e \<Rightarrow> createErrorOutput js (inv_id invoice) e)"

section \<open>Edit distance\<close>

text \<open>
  The standard edit distance: the least number of single-character insertions, deletions
  and substitutions that turn one string into the other.
\<close>

inductive edit1 :: "'a list \<Rightarrow> 'a list \<Rightarrow> bool" where
  insertion: "edit1 (xs @ ys) (xs @ a # ys)"
| deletion: "edit1 (xs @ a # ys) (xs @ ys)"
| substitution: "edit1 (xs @ a # ys) (xs @ b # ys)"

inductive edits :: "nat \<Rightarrow> 'a list \<Rightarrow> 'a list \<Rightarrow> bool" where
  stay: "edits 0 xs xs"
| move: "edit1 xs ys \<Longrightarrow> edits n ys zs \<Longrightarrow> edits (Suc n) xs zs"

definition editDistance :: "'a list \<Rightarrow> 'a list \<Rightarrow> nat" where
  "editDistance xs ys = (LEAST n. edits n xs ys)"

text \<open>
  For the proofs: the recurrence of the distance, alignments of two strings with their
  cost, and the invariant of the matrix (\<open>filled\<close>: the borders, the rows above
  \<open>j\<close> and row \<open>j\<close> up to column \<open>i\<close> hold the distances of the prefixes).
\<close>

fun lev :: "'a list \<Rightarrow> 'a list \<Rightarrow> nat" where
  "lev [] ys = length ys"
| "lev (x # xs) [] = Suc (length xs)"
| "lev (x # xs) (y # ys) =
     min (min (lev xs (y # ys) + 1) (lev (x # xs) ys + 1))
       (lev xs ys + (if x = y then 0 else 1))"

inductive aligns :: "nat \<Rightarrow> 'a list \<Rightarrow> 'a list \<Rightarrow> bool" where
  nil: "aligns 0 [] []"
| del: "aligns n xs ys \<Longrightarrow> aligns (Suc n) (x # xs) ys"
| ins: "aligns n xs ys \<Longrightarrow> aligns (Suc n) xs (y # ys)"
| sub: "aligns n xs ys \<Longrightarrow> x \<noteq> y \<Longrightarrow> aligns (Suc n) (x # xs) (y # ys)"
| keep: "aligns n xs ys \<Longrightarrow> aligns n (x # xs) (x # ys)"

definition wellFormed :: "nat \<Rightarrow> nat \<Rightarrow> nat list list \<Rightarrow> bool" where
  "wellFormed n1 n2 matrix \<longleftrightarrow>
     length matrix = n2 + 1 \<and> (\<forall>j \<le> n2. length (matrix ! j) = n1 + 1)"

definition target :: "'a list \<Rightarrow> 'a list \<Rightarrow> nat \<Rightarrow> nat \<Rightarrow> nat" where
  "target str1 str2 j i = lev (rev (take i str1)) (rev (take j str2))"

definition filled :: "string \<Rightarrow> string \<Rightarrow> nat list list \<Rightarrow> nat \<Rightarrow> nat \<Rightarrow> bool" where
  "filled str1 str2 matrix j i \<longleftrightarrow>
     wellFormed (length str1) (length str2) matrix
     \<and> (\<forall>j' i'. j' \<le> length str2 \<longrightarrow> i' \<le> length str1 \<longrightarrow>
            (j' = 0 \<or> i' = 0 \<or> j' < j \<or> (j' = j \<and> i' \<le> i)) \<longrightarrow>
            matGet matrix j' i' = target str1 str2 j' i')"

section \<open>The blend of sub-confidences, in closed form\<close>






section \<open>Example data\<close>

text \<open>
  A runtime for the examples: a number prints as the decimal digits of its integer part,
  the clock stands at zero, no string parses as a number or a date, and every pattern
  compiles and matches nothing.
\<close>

fun decimalDigits :: "nat \<Rightarrow> nat \<Rightarrow> string" where
  "decimalDigits 0 n = []"
| "decimalDigits (Suc fuel) n =
     (if n < 10 then [''0123456789'' ! n]
      else decimalDigits fuel (n div 10) @ [''0123456789'' ! (n mod 10)])"

definition natToString :: "nat \<Rightarrow> string" where
  "natToString n = decimalDigits (Suc n) n"

definition plainBuiltins :: js_builtins where
  "plainBuiltins =
     \<lparr>toFixed = (\<lambda>x d. natToString (nat \<lfloor>x\<rfloor>)),
      numberToString = (\<lambda>x. natToString (nat \<lfloor>x\<rfloor>)),
      toUpperCase = (\<lambda>s. s),
      dateNow = 0,
      toISOString = (\<lambda>t. ''1970-01-01T00:00:00.000Z''),
      dateParses = (\<lambda>s. True),
      parseNumber = (\<lambda>s. NaN),
      dateToString = (\<lambda>d. ''Invalid Date''),
      dateOf = (\<lambda>v. None),
      randomSuffix = ''k3x9q2m1z'',
      regexReplace = (\<lambda>pattern replacement s. Some s)\<rparr>"

definition acmeInvoice :: Invoice where
  "acmeInvoice =
     \<lparr>inv_id = ''INV-001'', inv_vendorName = ''Acme Corp'', inv_invoiceNumber = ''A-17'',
      inv_amount = Fin 1250, inv_date = Some 0, inv_lineItems = [], inv_rawFields = [],
      inv_processingMetadata =
        \<lparr>receivedAt = 0, processingStarted = 0, md_confidenceScore = None,
         md_memorySourceIds = [], humanReviewRequired = False\<rparr>\<rparr>"

definition acmePattern :: VendorMemory where
  "acmePattern =
     \<lparr>vm_id = ''vm1'', vm_vendorName = ''Acme Corp'', vm_fieldMappings = [],
      vm_normalizationRules = [], vm_confidenceScore = 0.8, vm_usageCount = 1,
      vm_lastUsed = 0, vm_createdAt = 0\<rparr>"

definition confidentInsights :: MemoryInsights where
  "confidentInsights =
     \<lparr>vendorPatterns = [], suggestedCorrections = [], historicalResolutions = [],
      overallConfidence = 0.9, mi_reasoning = []\<rparr>"

definition poCorrection :: ProposedCorrection where
  "poCorrection =
     \<lparr>pc_field = ''poNumber'', pc_originalValue = VStr ''PO 7'', pc_correctedValue = VStr ''PO-7'',
      pc_confidence = 0.9, pc_memorySourceId = ''cm1'', pc_reasoning = ''seen before''\<rparr>"

definition amountCorrection :: ProposedCorrection where
  "amountCorrection =
     \<lparr>pc_field = ''amount'', pc_originalValue = VNum (Fin 1250),
      pc_correctedValue = VNum (Fin 1255),
      pc_confidence = 0.7, pc_memorySourceId = ''cm2'', pc_reasoning = ''seen before''\<rparr>"

definition vendorCorrection :: CorrectionMemory where
  "vendorCorrection =
     \<lparr>cm_id = ''cm1'', cm_originalValue = ''Acme Corp'', cm_correctedValue = ''ACME Corporation'',
      cm_fieldName = ''vendorName'', cm_vendorName = Some ''Acme Corp'', cm_confidenceScore = 0.5,
      cm_approvalCount = 1, cm_rejectionCount = 0, cm_createdAt = 0\<rparr>"

definition acmeStore :: MemoryStore where
  "acmeStore =
     \<lparr>pool = True, vendor_memory = [acmePattern], correction_memory = [vendorCorrection],
      resolution_memory = [], audit_logs = []\<rparr>"

definition acmeEngine :: LearningEngine where
  "acmeEngine = \<lparr>memoryStore = acmeStore, processedInvoices = {}, learningEvents = []\<rparr>"

definition acmeFeedback :: LearningFeedback where
  "acmeFeedback =
     \<lparr>fb_invoiceId = ''INV-001'', fb_correctionId = None, fb_vendorMemoryId = Some ''vm1'',
      fb_resolutionMemoryId = None, fb_approved = True, fb_reasoning = None,
      fb_timestamp = Some 0\<rparr>"

definition acmeEngineLearned :: LearningEngine where
  "acmeEngineLearned =
     \<lparr>memoryStore =
        acmeStore\<lparr>vendor_memory := [acmePattern\<lparr>vm_usageCount := 2\<rparr>],
           audit_logs :=
             [\<lparr>al_id = ''audit_0_k3x9q2m1z'',
               al_operation = ''update_vendor_usage'',
               al_entityType = ''vendor_memory'',
               al_entityId = ''vm1'',
               al_beforeState = None,
               al_afterState = None,
               al_reasoning = ''Updated usage count and last used timestamp'',
               al_confidenceScore = None,
               al_timestamp = Some 0\<rparr>]\<rparr>,
      processedInvoices = {''INV-001''},
      learningEvents =
        [\<lparr>le_id = ''learning_0_k3x9q2m1z'',
          le_invoiceId = ''INV-001'',
          le_eventType = PositiveReinforcement,
          le_memoryType = VendorType,
          le_memoryId = ''vm1'',
          le_confidenceChange = 0.05,
          le_reasoning = ''Approved vendor pattern'',
          le_timestamp = Some 0\<rparr>]\<rparr>"

definition namelessInvoice :: Invoice where
  "namelessInvoice = acmeInvoice\<lparr>inv_id := []\<rparr>"

definition reviewDecision :: ProcessingDecision where
  "reviewDecision =
     makeProcessingDecision plainBuiltins defaultThresholds acmeInvoice
       (insightsFrom plainBuiltins [] [] []) []"

definition vendorOnlyInsights :: MemoryInsights where
  "vendorOnlyInsights = insightsFrom plainBuiltins [acmePattern] [] []"




section \<open>The example runtime\<close>

lemma natToString_examples: "natToString 0 = ''0''" "natToString (Suc 0) = ''1''"
  by (simp_all add: natToString_def)

section \<open>Decision: action selection\<close>

lemma blocking_iff:
  "list_ex (\<lambda>c. c \<in> set blockingConstraints) fs \<longleftrightarrow>
     (\<exists>f \<in> set fs. f \<in> {''too-many-corrections'', ''critical-field-protection'',
        ''large-value-change'', ''overall-low-confidence'', ''error-fallback''})"
  by (simp add: list_ex_iff blockingConstraints_def)

text \<open>
  C1.  With the default thresholds the action of \<^verbatim>\<open>makeProcessingDecision\<close> follows
  this priority: human-review when the safety constraints of the decision contain one of
  the forcing flags; otherwise auto-accept when the overall confidence is at least 0.85
  and there is no proposal or some proposal has confidence at least 0.85 on a field other
  than amount, vendorName and invoiceNumber; otherwise auto-correct when the overall
  confidence is at least 0.65; otherwise human-review.
\<close>

theorem makeProcessingDecision_action_priority:
  "pd_action (makeProcessingDecision js defaultThresholds invoice insights proposedCorrections) =
     (if \<exists>flag \<in> set (pd_safetyConstraints
                          (makeProcessingDecision js defaultThresholds invoice insights
                             proposedCorrections)).
           flag \<in> {''too-many-corrections'', ''critical-field-protection'',
                   ''large-value-change'', ''overall-low-confidence'', ''error-fallback''}
      then HumanReview
      else if 0.85 \<le> overallConfidence insights
              \<and> (proposedCorrections = []
                 \<or> (\<exists>c \<in> set proposedCorrections.
                       0.85 \<le> pc_confidence c
                       \<and> pc_field c \<notin> {''amount'', ''vendorName'', ''invoiceNumber''}))
      then AutoAccept
      else if 0.65 \<le> overallConfidence insights then AutoCorrect
      else HumanReview)"
  unfolding makeProcessingDecision_def Let_def determineAction_def blocking_iff
  by (auto simp add: evaluateConfidenceThresholds_def defaultThresholds_def criticalFields_def
        filter_empty_conv)

theorem makeProcessingDecision_action_priority_witness:
  "pd_action (makeProcessingDecision plainBuiltins defaultThresholds acmeInvoice confidentInsights
                [poCorrection]) = AutoAccept"
proof -
  have flags: "pd_safetyConstraints
                 (makeProcessingDecision plainBuiltins defaultThresholds acmeInvoice
                    confidentInsights [poCorrection]) = []"
    by (simp add: makeProcessingDecision_def Let_def applySafetyConstraints_def
          defaultThresholds_def confidentInsights_def poCorrection_def criticalFields_def
          isLargeValueChange_def)
  show ?thesis
    using makeProcessingDecision_action_priority
            [of plainBuiltins acmeInvoice confidentInsights "[poCorrection]", unfolded flags]
    by (simp add: confidentInsights_def poCorrection_def)
qed

text \<open>
  C5.  With the default thresholds, a proposal on amount, vendorName or invoiceNumber with
  confidence below 0.85 forces the action human-review, and the decision carries no
  corrections.
\<close>

theorem critical_field_forces_human_review:
  assumes "c \<in> set proposedCorrections"
    and "pc_field c \<in> {''amount'', ''vendorName'', ''invoiceNumber''}"
    and "pc_confidence c < 0.85"
  shows "pd_action (makeProcessingDecision js defaultThresholds invoice insights
                      proposedCorrections) = HumanReview
       \<and> pd_appliedCorrections (makeProcessingDecision js defaultThresholds invoice insights
                                  proposedCorrections) = []"
proof -
  let ?crit = "filter (\<lambda>c. pc_field c \<in> set criticalFields
                          \<and> pc_confidence c < autoAccept defaultThresholds) proposedCorrections"
  let ?flags = "applySafetyConstraints defaultThresholds proposedCorrections
                  (overallConfidence insights)"
  have "c \<in> set ?crit"
    using assms by (simp add: criticalFields_def defaultThresholds_def)
  then have "0 < length ?crit"
    by (metis length_pos_if_in_set)
  then have "''critical-field-protection'' \<in> set ?flags"
    by (simp add: applySafetyConstraints_def Let_def)
  then have act:
    "determineAction defaultThresholds
       (evaluateConfidenceThresholds defaultThresholds (overallConfidence insights))
       ?flags proposedCorrections = HumanReview"
    by (auto simp add: determineAction_def list_ex_iff blockingConstraints_def)
  show ?thesis
    by (simp add: makeProcessingDecision_def Let_def act)
qed

theorem critical_field_forces_human_review_witness:
  "amountCorrection \<in> set [poCorrection, amountCorrection]
   \<and> pc_field amountCorrection \<in> {''amount'', ''vendorName'', ''invoiceNumber''}
   \<and> pc_confidence amountCorrection < 0.85
   \<and> pd_action (makeProcessingDecision plainBuiltins defaultThresholds acmeInvoice
                  confidentInsights [poCorrection, amountCorrection]) = HumanReview
   \<and> pd_appliedCorrections (makeProcessingDecision plainBuiltins defaultThresholds acmeInvoice
                  confidentInsights [poCorrection, amountCorrection]) = []"
proof -
  have h1: "amountCorrection \<in> set [poCorrection, amountCorrection]" by simp
  have h2: "pc_field amountCorrection \<in> {''amount'', ''vendorName'', ''invoiceNumber''}"
    by (simp add: amountCorrection_def)
  have h3: "pc_confidence amountCorrection < 0.85"
    by (simp add: amountCorrection_def)
  show ?thesis
    using h1 h2 h3
      critical_field_forces_human_review
        [OF h1 h2 h3, of plainBuiltins acmeInvoice confidentInsights]
    by simp
qed

section \<open>Recall: overall confidence\<close>





text \<open>
  C6.  When Recall finds no vendor pattern, no correction pattern and no resolution
  outcome, the overall confidence of the insights is the floor 0.1 and, with the default
  thresholds, the decision is human-review whatever is proposed.
\<close>

theorem no_memory_floor_human_review:
  "overallConfidence (insightsFrom js [] [] []) = 0.1
   \<and> pd_action (makeProcessingDecision js defaultThresholds invoice (insightsFrom js [] [] [])
                  proposedCorrections) = HumanReview"
  by (simp add: insightsFrom_def calculateOverallConfidence_def makeProcessingDecision_def
        Let_def determineAction_def applySafetyConstraints_def defaultThresholds_def
        blockingConstraints_def)

theorem no_memory_floor_human_review_witness:
  "overallConfidence (insightsFrom plainBuiltins [] [] []) = 0.1
   \<and> pd_action (makeProcessingDecision plainBuiltins defaultThresholds acmeInvoice
                  (insightsFrom plainBuiltins [] [] []) []) = HumanReview"
  using no_memory_floor_human_review [of plainBuiltins acmeInvoice "[]"]
  by simp

section \<open>Memory store: feedback on a correction pattern\<close>

lemma numeric32_shift:
  assumes "numeric32 c = c" "0 \<le> c" "0 \<le> c + real_of_int k / 100"
  shows "numeric32 (c + real_of_int k / 100) = c + real_of_int k / 100"
proof -
  define m where "m = \<lfloor>c * 100 + 1 / 2\<rfloor>"
  have c: "c = real_of_int m / 100"
    using assms(1,2) by (simp add: numeric32_def m_def)
  have "(c + real_of_int k / 100) * 100 + 1 / 2 = real_of_int (m + k) + 1 / 2"
    by (simp add: c)
  moreover have "\<lfloor>real_of_int (m + k) + 1 / 2\<rfloor> = m + k"
    by (rule floor_unique) simp_all
  ultimately have "\<lfloor>(c + real_of_int k / 100) * 100 + 1 / 2\<rfloor> = m + k"
    by simp
  then show ?thesis
    using assms(3) by (simp add: numeric32_def c add_divide_distrib)
qed

lemma numeric32_approve:
  assumes "storedConfidence c"
  shows "numeric32 (min 1 (c + 0.1)) = min 1 (c + 0.1)"
proof (cases "c + 0.1 \<le> 1")
  case True
  have "numeric32 (c + real_of_int 10 / 100) = c + real_of_int 10 / 100"
    using assms by (intro numeric32_shift) (simp_all add: storedConfidence_def)
  with True show ?thesis by simp
next
  case False
  then show ?thesis by (simp add: numeric32_def)
qed

lemma numeric32_reject:
  assumes "storedConfidence c"
  shows "numeric32 (max 0 (c - 0.15)) = max 0 (c - 0.15)"
proof (cases "0 \<le> c - 0.15")
  case True
  have "numeric32 (c + real_of_int (- 15) / 100) = c + real_of_int (- 15) / 100"
    using assms True by (intro numeric32_shift) (simp_all add: storedConfidence_def)
  with True show ?thesis by simp
next
  case False
  then show ?thesis by (simp add: numeric32_def)
qed

lemma storedConfidence_approve:
  assumes "storedConfidence c"
  shows "storedConfidence (min 1 (c + 0.1))"
proof -
  have "0 \<le> c" using assms by (simp add: storedConfidence_def)
  then have "0 \<le> min 1 (c + 0.1)" by simp
  moreover have "min 1 (c + 0.1) \<le> 1" by simp
  ultimately show ?thesis
    unfolding storedConfidence_def using numeric32_approve [OF assms] by blast
qed

lemma storedConfidence_reject:
  assumes "storedConfidence c"
  shows "storedConfidence (max 0 (c - 0.15))"
proof -
  have "c \<le> 1" using assms by (simp add: storedConfidence_def)
  then have "max 0 (c - 0.15) \<le> 1" by simp
  moreover have "0 \<le> max 0 (c - 0.15)" by simp
  ultimately show ?thesis
    unfolding storedConfidence_def using numeric32_reject [OF assms] by blast
qed

lemma feedbackUpdate_approved:
  "storedConfidence (cm_confidenceScore r) \<Longrightarrow>
   feedbackUpdate True r =
     r\<lparr>cm_approvalCount := cm_approvalCount r + 1,
       cm_confidenceScore := min 1 (cm_confidenceScore r + 0.1)\<rparr>"
  unfolding feedbackUpdate_def by (simp only: numeric32_approve if_True)

lemma feedbackUpdate_rejected:
  "storedConfidence (cm_confidenceScore r) \<Longrightarrow>
   feedbackUpdate False r =
     r\<lparr>cm_rejectionCount := cm_rejectionCount r + 1,
       cm_confidenceScore := max 0 (cm_confidenceScore r - 0.15)\<rparr>"
  unfolding feedbackUpdate_def by (simp only: numeric32_reject if_False)

lemma update_rows:
  assumes "pool store"
    and "\<forall>r \<in> set (correction_memory store).
           cm_id r = correctionId \<longrightarrow> storedConfidence (cm_confidenceScore r)"
  shows "\<exists>store'. updateCorrectionMemoryFeedback js store correctionId approved = Inr store'
           \<and> pool store'
           \<and> correction_memory store' =
               map (\<lambda>r. if cm_id r = correctionId
                         then (if approved then approvedRow r else rejectedRow r) else r)
                 (correction_memory store)"
proof -
  let ?rows = "map (\<lambda>r. if cm_id r = correctionId then feedbackUpdate approved r else r)
                 (correction_memory store)"
  have rows: "?rows = map (\<lambda>r. if cm_id r = correctionId
                         then (if approved then approvedRow r else rejectedRow r) else r)
                 (correction_memory store)"
    using assms(2)
    by (intro map_cong refl)
       (simp add: feedbackUpdate_approved feedbackUpdate_rejected approvedRow_def rejectedRow_def)
  have ok: "list_all (\<lambda>r. cm_id r = correctionId \<longrightarrow> checkConfidence (cm_confidenceScore r)) ?rows"
  proof -
    have "checkConfidence (cm_confidenceScore (if approved then approvedRow r else rejectedRow r))"
      if "storedConfidence (cm_confidenceScore r)" for r
      using storedConfidence_approve [OF that] storedConfidence_reject [OF that]
      by (simp add: approvedRow_def rejectedRow_def checkConfidence_def storedConfidence_def)
    then show ?thesis
      unfolding rows list_all_iff using assms(2) by auto
  qed
  have "updateCorrectionMemoryFeedback js store correctionId approved =
          Inr (logAuditEntry (store\<lparr>correction_memory := ?rows\<rparr>)
                 \<lparr>al_id = auditId js,
                  al_operation = ''update_correction_feedback'',
                  al_entityType = ''correction_memory'',
                  al_entityId = correctionId,
                  al_beforeState =
                    map_option CorrectionState
                      (find (\<lambda>r. cm_id r = correctionId) (correction_memory store)),
                  al_afterState =
                    map_option CorrectionState (find (\<lambda>r. cm_id r = correctionId) ?rows),
                  al_reasoning = ''Updated correction memory based on ''
                                   @ (if approved then ''positive'' else ''negative'')
                                   @ '' feedback'',
                  al_confidenceScore =
                    Some (case find (\<lambda>r. cm_id r = correctionId) ?rows of
                            None \<Rightarrow> 0 | Some r \<Rightarrow> cm_confidenceScore r),
                  al_timestamp = Some (dateNow js)\<rparr>)"
    (is "_ = Inr ?store'")
    unfolding updateCorrectionMemoryFeedback_def getClient_def Let_def
    using assms(1) ok by simp
  moreover have "pool ?store'"
    using assms(1) by (simp add: logAuditEntry_def)
  moreover have "correction_memory ?store' = ?rows"
    by (simp add: logAuditEntry_def)
  ultimately show ?thesis
    unfolding rows by blast
qed

lemma stored_examples: "storedConfidence 0.5" "storedConfidence 0.6" "storedConfidence 0.7"
  by (simp_all add: storedConfidence_def numeric32_def)

lemma update_rows_approved:
  assumes "pool store"
    and "\<forall>r \<in> set (correction_memory store).
           cm_id r = correctionId \<longrightarrow> storedConfidence (cm_confidenceScore r)"
  shows "\<exists>store'. updateCorrectionMemoryFeedback js store correctionId True = Inr store'
           \<and> pool store'
           \<and> correction_memory store' =
               map (\<lambda>r. if cm_id r = correctionId then approvedRow r else r)
                 (correction_memory store)"
  using update_rows [OF assms, of js True] by (simp only: if_True)

lemma update_rows_rejected:
  assumes "pool store"
    and "\<forall>r \<in> set (correction_memory store).
           cm_id r = correctionId \<longrightarrow> storedConfidence (cm_confidenceScore r)"
  shows "\<exists>store'. updateCorrectionMemoryFeedback js store correctionId False = Inr store'
           \<and> pool store'
           \<and> correction_memory store' =
               map (\<lambda>r. if cm_id r = correctionId then rejectedRow r else r)
                 (correction_memory store)"
  using update_rows [OF assms, of js False] by (simp only: if_False)

lemma approved_rows_confidence:
  assumes "\<forall>r \<in> set rows. cm_id r = correctionId \<longrightarrow> cm_confidenceScore r = c"
    and "r' \<in> set (map (\<lambda>r. if cm_id r = correctionId then approvedRow r else r) rows)"
    and "cm_id r' = correctionId"
  shows "cm_confidenceScore r' = min 1 (c + 0.1)"
proof -
  from assms(2) obtain r where r: "r \<in> set rows"
    "r' = (if cm_id r = correctionId then approvedRow r else r)"
    by (auto simp only: set_map)
  have same: "cm_id (approvedRow r) = cm_id r"
    by (simp add: approvedRow_def)
  have "cm_id r = correctionId"
    using r(2) assms(3) same by (cases "cm_id r = correctionId") simp_all
  then have "r' = approvedRow r" "cm_confidenceScore r = c"
    using r assms(1) by simp_all
  then show ?thesis
    by (simp add: approvedRow_def)
qed

lemma approve_all_at:
  assumes "pool store"
    and "\<forall>r \<in> set (correction_memory store). cm_id r = correctionId \<longrightarrow> cm_confidenceScore r = c"
    and "storedConfidence c"
  shows "\<exists>store'. updateCorrectionMemoryFeedback js store correctionId True = Inr store'
           \<and> pool store'
           \<and> (\<forall>r \<in> set (correction_memory store').
                 cm_id r = correctionId \<longrightarrow> cm_confidenceScore r = min 1 (c + 0.1))"
proof -
  have "\<forall>r \<in> set (correction_memory store).
          cm_id r = correctionId \<longrightarrow> storedConfidence (cm_confidenceScore r)"
    using assms(2,3) by simp
  from update_rows_approved [OF assms(1) this, of js]
  obtain store' where s: "updateCorrectionMemoryFeedback js store correctionId True = Inr store'"
    "pool store'"
    "correction_memory store' =
       map (\<lambda>r. if cm_id r = correctionId then approvedRow r else r) (correction_memory store)"
    by (elim exE conjE)
  have "\<forall>r \<in> set (correction_memory store').
          cm_id r = correctionId \<longrightarrow> cm_confidenceScore r = min 1 (c + 0.1)"
    unfolding s(3) using approved_rows_confidence [OF assms(2)] by blast
  with s(1,2) show ?thesis by blast
qed

text \<open>
  C7.  On an initialised store whose rows with the given id hold a confidence in \<open>[0, 1]\<close>
  with two decimals, \<^verbatim>\<open>updateCorrectionMemoryFeedback\<close> succeeds; with
  \<^verbatim>\<open>approved = true\<close> it sets the confidence of those rows to \<open>min 1 (c + 0.1)\<close>
  and adds one to the approval counter, with \<^verbatim>\<open>approved = false\<close> it sets the
  confidence to \<open>max 0 (c - 0.15)\<close> and adds one to the rejection counter, and it leaves
  the other rows as they are.  Three approvals in a row from confidence 0.5 give 0.8.
\<close>

theorem updateCorrectionMemoryFeedback_confidence:
  assumes "pool store"
    and "\<forall>r \<in> set (correction_memory store).
           cm_id r = correctionId \<longrightarrow> storedConfidence (cm_confidenceScore r)"
  shows "(\<exists>store'. updateCorrectionMemoryFeedback js store correctionId True = Inr store'
            \<and> correction_memory store' =
                map (\<lambda>r. if cm_id r = correctionId then approvedRow r else r)
                  (correction_memory store))
       \<and> (\<exists>store'. updateCorrectionMemoryFeedback js store correctionId False = Inr store'
            \<and> correction_memory store' =
                map (\<lambda>r. if cm_id r = correctionId then rejectedRow r else r)
                  (correction_memory store))
       \<and> ((\<forall>r \<in> set (correction_memory store).
              cm_id r = correctionId \<longrightarrow> cm_confidenceScore r = 0.5) \<longrightarrow>
            (\<exists>s1 s2 s3.
               updateCorrectionMemoryFeedback js store correctionId True = Inr s1
               \<and> updateCorrectionMemoryFeedback js s1 correctionId True = Inr s2
               \<and> updateCorrectionMemoryFeedback js s2 correctionId True = Inr s3
               \<and> (\<forall>r \<in> set (correction_memory s3).
                     cm_id r = correctionId \<longrightarrow> cm_confidenceScore r = 0.8)))"
proof (intro conjI impI)
  show "\<exists>store'. updateCorrectionMemoryFeedback js store correctionId True = Inr store'
            \<and> correction_memory store' =
                map (\<lambda>r. if cm_id r = correctionId then approvedRow r else r)
                  (correction_memory store)"
    using update_rows_approved [OF assms, of js] by blast
  show "\<exists>store'. updateCorrectionMemoryFeedback js store correctionId False = Inr store'
            \<and> correction_memory store' =
                map (\<lambda>r. if cm_id r = correctionId then rejectedRow r else r)
                  (correction_memory store)"
    using update_rows_rejected [OF assms, of js] by blast
next
  assume half: "\<forall>r \<in> set (correction_memory store).
              cm_id r = correctionId \<longrightarrow> cm_confidenceScore r = 0.5"
  from approve_all_at [OF assms(1) half stored_examples(1), of js]
  obtain s1 where s1: "updateCorrectionMemoryFeedback js store correctionId True = Inr s1"
    "pool s1"
    "\<forall>r \<in> set (correction_memory s1). cm_id r = correctionId \<longrightarrow> cm_confidenceScore r = 0.6"
    by (elim exE conjE) simp
  from approve_all_at [OF s1(2,3) stored_examples(2), of js]
  obtain s2 where s2: "updateCorrectionMemoryFeedback js s1 correctionId True = Inr s2"
    "pool s2"
    "\<forall>r \<in> set (correction_memory s2). cm_id r = correctionId \<longrightarrow> cm_confidenceScore r = 0.7"
    by (elim exE conjE) simp
  from approve_all_at [OF s2(2,3) stored_examples(3), of js]
  obtain s3 where s3: "updateCorrectionMemoryFeedback js s2 correctionId True = Inr s3"
    "\<forall>r \<in> set (correction_memory s3). cm_id r = correctionId \<longrightarrow> cm_confidenceScore r = 0.8"
    by (elim exE conjE) simp
  from s1(1) s2(1) s3 show "\<exists>s1 s2 s3.
               updateCorrectionMemoryFeedback js store correctionId True = Inr s1
               \<and> updateCorrectionMemoryFeedback js s1 correctionId True = Inr s2
               \<and> updateCorrectionMemoryFeedback js s2 correctionId True = Inr s3
               \<and> (\<forall>r \<in> set (correction_memory s3).
                     cm_id r = correctionId \<longrightarrow> cm_confidenceScore r = 0.8)"
    by blast
qed

theorem updateCorrectionMemoryFeedback_confidence_witness:
  "pool acmeStore
   \<and> correction_memory acmeStore = [vendorCorrection]
   \<and> cm_id vendorCorrection = ''cm1''
   \<and> cm_confidenceScore vendorCorrection = 0.5
   \<and> storedConfidence (cm_confidenceScore vendorCorrection)
   \<and> (\<exists>s1 s2 s3.
         updateCorrectionMemoryFeedback plainBuiltins acmeStore ''cm1'' True = Inr s1
         \<and> updateCorrectionMemoryFeedback plainBuiltins s1 ''cm1'' True = Inr s2
         \<and> updateCorrectionMemoryFeedback plainBuiltins s2 ''cm1'' True = Inr s3
         \<and> (\<forall>r \<in> set (correction_memory s3).
               cm_id r = ''cm1'' \<longrightarrow> cm_confidenceScore r = 0.8))
   \<and> (\<exists>store'. updateCorrectionMemoryFeedback plainBuiltins acmeStore ''cm1'' False = Inr store'
         \<and> map cm_confidenceScore (correction_memory store') = [0.35]
         \<and> map cm_rejectionCount (correction_memory store') = [1])"
proof -
  have h1: "pool acmeStore" by (simp add: acmeStore_def)
  have rows: "correction_memory acmeStore = [vendorCorrection]"
    by (simp add: acmeStore_def)
  have ident: "cm_id vendorCorrection = ''cm1''"
    and half: "cm_confidenceScore vendorCorrection = 0.5"
    by (simp_all add: vendorCorrection_def)
  have stored: "storedConfidence (cm_confidenceScore vendorCorrection)"
    by (simp add: vendorCorrection_def storedConfidence_def numeric32_def)
  have h2: "\<forall>r \<in> set (correction_memory acmeStore).
         cm_id r = ''cm1'' \<longrightarrow> storedConfidence (cm_confidenceScore r)"
    using stored by (simp add: rows)
  have h3: "\<forall>r \<in> set (correction_memory acmeStore).
         cm_id r = ''cm1'' \<longrightarrow> cm_confidenceScore r = 0.5"
    using half by (simp add: rows)
  note c7 = updateCorrectionMemoryFeedback_confidence [OF h1 h2, of plainBuiltins]
  from c7 h3 have three: "\<exists>s1 s2 s3.
         updateCorrectionMemoryFeedback plainBuiltins acmeStore ''cm1'' True = Inr s1
         \<and> updateCorrectionMemoryFeedback plainBuiltins s1 ''cm1'' True = Inr s2
         \<and> updateCorrectionMemoryFeedback plainBuiltins s2 ''cm1'' True = Inr s3
         \<and> (\<forall>r \<in> set (correction_memory s3).
               cm_id r = ''cm1'' \<longrightarrow> cm_confidenceScore r = 0.8)"
    by blast
  from c7 obtain store' where
    rej: "updateCorrectionMemoryFeedback plainBuiltins acmeStore ''cm1'' False = Inr store'"
      "correction_memory store' =
         map (\<lambda>r. if cm_id r = ''cm1'' then rejectedRow r else r) (correction_memory acmeStore)"
    by blast
  have "map cm_confidenceScore (correction_memory store') = [0.35]"
    and "map cm_rejectionCount (correction_memory store') = [1]"
    unfolding rej(2) rows by (simp_all add: rejectedRow_def vendorCorrection_def)
  with rej(1) have rejected:
    "\<exists>store'. updateCorrectionMemoryFeedback plainBuiltins acmeStore ''cm1'' False = Inr store'
         \<and> map cm_confidenceScore (correction_memory store') = [0.35]
         \<and> map cm_rejectionCount (correction_memory store') = [1]"
    by (intro exI [of _ store'] conjI)
  show ?thesis
    by (rule conjI [OF h1 conjI [OF rows conjI [OF ident conjI [OF half
          conjI [OF stored conjI [OF three rejected]]]]]])
qed

section \<open>Apply: high-confidence corrections\<close>






section \<open>Apply: string similarity and edit distance\<close>

lemma lev_Nil2: "lev xs [] = length xs"
  by (cases xs) simp_all

lemma aligns_lev: "aligns (lev xs ys) xs ys"
proof (induction xs ys rule: lev.induct)
  case (1 ys)
  show ?case by (induction ys) (auto intro: aligns.intros)
next
  case (2 x xs)
  have "aligns (length zs) zs []" for zs :: "'a list"
    by (induction zs) (auto intro: aligns.intros)
  from this [of "x # xs"] show ?case by simp
next
  case (3 x xs y ys)
  let ?a = "lev xs (y # ys) + 1" and ?b = "lev (x # xs) ys + 1"
  let ?c = "lev xs ys + (if x = y then 0 else 1)"
  have a: "aligns ?a (x # xs) (y # ys)" using 3(1) by (simp add: aligns.del)
  have b: "aligns ?b (x # xs) (y # ys)" using 3(2) by (simp add: aligns.ins)
  have c: "aligns ?c (x # xs) (y # ys)"
    using 3(3) by (cases "x = y") (simp_all add: aligns.keep aligns.sub)
  have "lev (x # xs) (y # ys) = ?a \<or> lev (x # xs) (y # ys) = ?b \<or> lev (x # xs) (y # ys) = ?c"
    by (simp add: min_def)
  with a b c show ?case by metis
qed

lemma lev_le_aligns: "aligns n xs ys \<Longrightarrow> lev xs ys \<le> n"
proof (induction rule: aligns.induct)
  case nil
  show ?case by simp
next
  case (del n xs ys x)
  then show ?case by (cases ys) (simp_all add: lev_Nil2)
next
  case (ins n xs ys y)
  then show ?case by (cases xs) simp_all
next
  case (sub n xs ys x y)
  then show ?case by simp
next
  case (keep n xs ys x)
  then show ?case by simp
qed

lemma aligns_sym: "aligns n xs ys \<Longrightarrow> aligns n ys xs"
  by (induction rule: aligns.induct) (auto intro: aligns.intros)

lemma aligns_append:
  "aligns n xs ys \<Longrightarrow> aligns m xs' ys' \<Longrightarrow> aligns (n + m) (xs @ xs') (ys @ ys')"
  by (induction rule: aligns.induct) (auto intro: aligns.intros)

lemma aligns_rev: "aligns n xs ys \<Longrightarrow> aligns n (rev xs) (rev ys)"
proof (induction rule: aligns.induct)
  case nil
  show ?case by (simp add: aligns.nil)
next
  case (del n xs ys x)
  have "aligns (Suc 0) [x] []" by (rule aligns.del [OF aligns.nil])
  from aligns_append [OF del.IH this] show ?case by simp
next
  case (ins n xs ys y)
  have "aligns (Suc 0) [] [y]" by (rule aligns.ins [OF aligns.nil])
  from aligns_append [OF ins.IH this] show ?case by simp
next
  case (sub n xs ys x y)
  have "aligns (Suc 0) [x] [y]" by (rule aligns.sub [OF aligns.nil sub.hyps(2)])
  from aligns_append [OF sub.IH this] show ?case by simp
next
  case (keep n xs ys x)
  have "aligns 0 [x] [x]" by (rule aligns.keep [OF aligns.nil])
  from aligns_append [OF keep.IH this] show ?case by simp
qed

lemma lev_sym: "lev xs ys = lev ys xs"
  by (meson aligns_lev aligns_sym lev_le_aligns le_antisym)

lemma lev_rev: "lev (rev xs) (rev ys) = lev xs ys"
proof (rule le_antisym)
  show "lev (rev xs) (rev ys) \<le> lev xs ys"
    by (rule lev_le_aligns [OF aligns_rev [OF aligns_lev]])
  have "aligns (lev (rev xs) (rev ys)) (rev (rev xs)) (rev (rev ys))"
    by (rule aligns_rev [OF aligns_lev])
  then show "lev xs ys \<le> lev (rev xs) (rev ys)"
    by (simp add: lev_le_aligns)
qed

lemma lev_same: "lev xs xs = 0"
  by (induction xs) simp_all

lemma aligns_0: "aligns n xs ys \<Longrightarrow> n = 0 \<Longrightarrow> xs = ys"
  by (induction rule: aligns.induct) simp_all

lemma lev_0_iff: "lev xs ys = 0 \<longleftrightarrow> xs = ys"
  using aligns_0 [OF aligns_lev] lev_same by metis

lemma lev_le_max: "lev xs ys \<le> max (length xs) (length ys)"
  by (induction xs ys rule: lev.induct) (auto simp add: min_def max_def)

lemma edit1_Cons: "edit1 xs ys \<Longrightarrow> edit1 (c # xs) (c # ys)"
proof (induction rule: edit1.induct)
  case (insertion xs ys a)
  show ?case using edit1.insertion [of "c # xs" ys a] by simp
next
  case (deletion xs a ys)
  show ?case using edit1.deletion [of "c # xs" a ys] by simp
next
  case (substitution xs a ys b)
  show ?case using edit1.substitution [of "c # xs" a ys b] by simp
qed

lemma edits_Cons: "edits n xs ys \<Longrightarrow> edits n (c # xs) (c # ys)"
  by (induction rule: edits.induct) (auto intro: edits.intros edit1_Cons)

lemma edit1_delete_head: "edit1 (x # xs) xs"
  using edit1.deletion [of "[]" x xs] by simp

lemma edit1_insert_head: "edit1 xs (y # xs)"
  using edit1.insertion [of "[]" xs y] by simp

lemma edit1_substitute_head: "edit1 (x # xs) (y # xs)"
  using edit1.substitution [of "[]" x xs y] by simp

lemma aligns_edits: "aligns n xs ys \<Longrightarrow> edits n xs ys"
proof (induction rule: aligns.induct)
  case nil
  show ?case by (rule edits.stay)
next
  case (del n xs ys x)
  show ?case by (rule edits.move [OF edit1_delete_head del.IH])
next
  case (ins n xs ys y)
  show ?case by (rule edits.move [OF edit1_insert_head edits_Cons [OF ins.IH]])
next
  case (sub n xs ys x y)
  show ?case by (rule edits.move [OF edit1_substitute_head edits_Cons [OF sub.IH]])
next
  case (keep n xs ys x)
  show ?case by (rule edits_Cons [OF keep.IH])
qed

lemma aligns_longer_source:
  "aligns n us zs \<Longrightarrow> us = xs @ ys \<Longrightarrow> \<exists>m\<le>Suc n. aligns m (xs @ a # ys) zs"
proof (induction arbitrary: xs rule: aligns.induct)
  case nil
  then show ?case using aligns.del [OF aligns.nil, of a] by auto
next
  case (del n us zs u)
  show ?case
  proof (cases xs)
    case Nil
    with del.prems have "aligns (Suc (Suc n)) (xs @ a # ys) zs"
      using aligns.del [OF aligns.del [OF del.hyps, of u], of a] by simp
    then show ?thesis by blast
  next
    case (Cons u' xs')
    with del.prems have "us = xs' @ ys" and [simp]: "u' = u" by simp_all
    from del.IH [OF this(1)] obtain m where "m \<le> Suc n" "aligns m (xs' @ a # ys) zs" by blast
    then have "Suc m \<le> Suc (Suc n)" "aligns (Suc m) (xs @ a # ys) zs"
      using Cons by (simp_all add: aligns.del)
    then show ?thesis by blast
  qed
next
  case (ins n us zs z)
  from ins.IH [OF ins.prems] obtain m where "m \<le> Suc n" "aligns m (xs @ a # ys) zs" by blast
  then have "Suc m \<le> Suc (Suc n)" "aligns (Suc m) (xs @ a # ys) (z # zs)"
    by (simp_all add: aligns.ins)
  then show ?case by blast
next
  case (sub n us zs u z)
  show ?case
  proof (cases xs)
    case Nil
    with sub.prems have "aligns (Suc (Suc n)) (xs @ a # ys) (z # zs)"
      using aligns.del [OF aligns.sub [OF sub.hyps], of a] by simp
    then show ?thesis by blast
  next
    case (Cons u' xs')
    with sub.prems have "us = xs' @ ys" and [simp]: "u' = u" by simp_all
    from sub.IH [OF this(1)] obtain m where "m \<le> Suc n" "aligns m (xs' @ a # ys) zs" by blast
    then have "Suc m \<le> Suc (Suc n)" "aligns (Suc m) (xs @ a # ys) (z # zs)"
      using Cons sub.hyps(2) by (simp_all add: aligns.sub)
    then show ?thesis by blast
  qed
next
  case (keep n us zs u)
  show ?case
  proof (cases xs)
    case Nil
    with keep.prems have "aligns (Suc n) (xs @ a # ys) (u # zs)"
      using aligns.del [OF aligns.keep [OF keep.hyps, of u], of a] by simp
    then show ?thesis by blast
  next
    case (Cons u' xs')
    with keep.prems have "us = xs' @ ys" and [simp]: "u' = u" by simp_all
    from keep.IH [OF this(1)] obtain m where "m \<le> Suc n" "aligns m (xs' @ a # ys) zs" by blast
    then have "aligns m (xs @ a # ys) (u # zs)"
      using Cons by (simp add: aligns.keep)
    with \<open>m \<le> Suc n\<close> show ?thesis by blast
  qed
qed

lemma aligns_shorter_source:
  "aligns n us zs \<Longrightarrow> us = xs @ a # ys \<Longrightarrow> \<exists>m\<le>Suc n. aligns m (xs @ ys) zs"
proof (induction arbitrary: xs rule: aligns.induct)
  case nil
  then show ?case by simp
next
  case (del n us zs u)
  show ?case
  proof (cases xs)
    case Nil
    with del.prems del.hyps have "aligns n (xs @ ys) zs" by simp
    moreover have "n \<le> Suc (Suc n)" by simp
    ultimately show ?thesis by blast
  next
    case (Cons u' xs')
    with del.prems have "us = xs' @ a # ys" and [simp]: "u' = u" by simp_all
    from del.IH [OF this(1)] obtain m where "m \<le> Suc n" "aligns m (xs' @ ys) zs" by blast
    then have "Suc m \<le> Suc (Suc n)" "aligns (Suc m) (xs @ ys) zs"
      using Cons by (simp_all add: aligns.del)
    then show ?thesis by blast
  qed
next
  case (ins n us zs z)
  from ins.IH [OF ins.prems] obtain m where "m \<le> Suc n" "aligns m (xs @ ys) zs" by blast
  then have "Suc m \<le> Suc (Suc n)" "aligns (Suc m) (xs @ ys) (z # zs)"
    by (simp_all add: aligns.ins)
  then show ?case by blast
next
  case (sub n us zs u z)
  show ?case
  proof (cases xs)
    case Nil
    with sub.prems sub.hyps have "aligns (Suc n) (xs @ ys) (z # zs)"
      by (simp add: aligns.ins)
    moreover have "Suc n \<le> Suc (Suc n)" by simp
    ultimately show ?thesis by blast
  next
    case (Cons u' xs')
    with sub.prems have "us = xs' @ a # ys" and [simp]: "u' = u" by simp_all
    from sub.IH [OF this(1)] obtain m where "m \<le> Suc n" "aligns m (xs' @ ys) zs" by blast
    then have "Suc m \<le> Suc (Suc n)" "aligns (Suc m) (xs @ ys) (z # zs)"
      using Cons sub.hyps(2) by (simp_all add: aligns.sub)
    then show ?thesis by blast
  qed
next
  case (keep n us zs u)
  show ?case
  proof (cases xs)
    case Nil
    with keep.prems keep.hyps have "aligns (Suc n) (xs @ ys) (u # zs)"
      by (simp add: aligns.ins)
    then show ?thesis by blast
  next
    case (Cons u' xs')
    with keep.prems have "us = xs' @ a # ys" and [simp]: "u' = u" by simp_all
    from keep.IH [OF this(1)] obtain m where "m \<le> Suc n" "aligns m (xs' @ ys) zs" by blast
    then have "aligns m (xs @ ys) (u # zs)"
      using Cons by (simp add: aligns.keep)
    with \<open>m \<le> Suc n\<close> show ?thesis by blast
  qed
qed

lemma aligns_changed_source:
  "aligns n us zs \<Longrightarrow> us = xs @ a # ys \<Longrightarrow> \<exists>m\<le>Suc n. aligns m (xs @ b # ys) zs"
proof (induction arbitrary: xs rule: aligns.induct)
  case nil
  then show ?case by simp
next
  case (del n us zs u)
  show ?case
  proof (cases xs)
    case Nil
    with del.prems del.hyps have "aligns (Suc n) (xs @ b # ys) zs"
      by (simp add: aligns.del)
    moreover have "Suc n \<le> Suc (Suc n)" by simp
    ultimately show ?thesis by blast
  next
    case (Cons u' xs')
    with del.prems have "us = xs' @ a # ys" and [simp]: "u' = u" by simp_all
    from del.IH [OF this(1)] obtain m where "m \<le> Suc n" "aligns m (xs' @ b # ys) zs" by blast
    then have "Suc m \<le> Suc (Suc n)" "aligns (Suc m) (xs @ b # ys) zs"
      using Cons by (simp_all add: aligns.del)
    then show ?thesis by blast
  qed
next
  case (ins n us zs z)
  from ins.IH [OF ins.prems] obtain m where "m \<le> Suc n" "aligns m (xs @ b # ys) zs" by blast
  then have "Suc m \<le> Suc (Suc n)" "aligns (Suc m) (xs @ b # ys) (z # zs)"
    by (simp_all add: aligns.ins)
  then show ?case by blast
next
  case (sub n us zs u z)
  show ?case
  proof (cases xs)
    case Nil
    with sub.prems sub.hyps have tail: "aligns n ys zs" by simp
    have "\<exists>m\<le>Suc n. aligns m (b # ys) (z # zs)"
    proof (cases "b = z")
      case True
      with tail have "aligns n (b # ys) (z # zs)" by (simp add: aligns.keep)
      moreover have "n \<le> Suc n" by simp
      ultimately show ?thesis by blast
    next
      case False
      with tail have "aligns (Suc n) (b # ys) (z # zs)" by (simp add: aligns.sub)
      then show ?thesis by blast
    qed
    then obtain m where "m \<le> Suc n" "aligns m (xs @ b # ys) (z # zs)"
      using Nil by auto
    then have "m \<le> Suc (Suc n)" by simp
    with \<open>aligns m (xs @ b # ys) (z # zs)\<close> show ?thesis by blast
  next
    case (Cons u' xs')
    with sub.prems have "us = xs' @ a # ys" and [simp]: "u' = u" by simp_all
    from sub.IH [OF this(1)] obtain m where "m \<le> Suc n" "aligns m (xs' @ b # ys) zs" by blast
    then have "Suc m \<le> Suc (Suc n)" "aligns (Suc m) (xs @ b # ys) (z # zs)"
      using Cons sub.hyps(2) by (simp_all add: aligns.sub)
    then show ?thesis by blast
  qed
next
  case (keep n us zs u)
  show ?case
  proof (cases xs)
    case Nil
    with keep.prems keep.hyps have tail: "aligns n ys zs" by simp
    have "\<exists>m\<le>Suc n. aligns m (b # ys) (u # zs)"
    proof (cases "b = u")
      case True
      with tail have "aligns n (b # ys) (u # zs)" by (simp add: aligns.keep)
      moreover have "n \<le> Suc n" by simp
      ultimately show ?thesis by blast
    next
      case False
      with tail have "aligns (Suc n) (b # ys) (u # zs)" by (simp add: aligns.sub)
      then show ?thesis by blast
    qed
    then show ?thesis using Nil by simp
  next
    case (Cons u' xs')
    with keep.prems have "us = xs' @ a # ys" and [simp]: "u' = u" by simp_all
    from keep.IH [OF this(1)] obtain m where "m \<le> Suc n" "aligns m (xs' @ b # ys) zs" by blast
    then have "aligns m (xs @ b # ys) (u # zs)"
      using Cons by (simp add: aligns.keep)
    with \<open>m \<le> Suc n\<close> show ?thesis by blast
  qed
qed

lemma lev_edit1: "edit1 xs ys \<Longrightarrow> lev xs zs \<le> Suc (lev ys zs)"
proof (induction rule: edit1.induct)
  case (insertion xs ys a)
  from aligns_shorter_source [OF aligns_lev refl, of xs a ys zs]
  obtain m where "m \<le> Suc (lev (xs @ a # ys) zs)" "aligns m (xs @ ys) zs" by blast
  then show ?case using lev_le_aligns le_trans by blast
next
  case (deletion xs a ys)
  from aligns_longer_source [OF aligns_lev refl, of xs ys zs a]
  obtain m where "m \<le> Suc (lev (xs @ ys) zs)" "aligns m (xs @ a # ys) zs" by blast
  then show ?case using lev_le_aligns le_trans by blast
next
  case (substitution xs a ys b)
  from aligns_changed_source [OF aligns_lev refl, of xs b ys zs a]
  obtain m where "m \<le> Suc (lev (xs @ b # ys) zs)" "aligns m (xs @ a # ys) zs" by blast
  then show ?case using lev_le_aligns le_trans by blast
qed

lemma lev_le_edits: "edits n xs ys \<Longrightarrow> lev xs ys \<le> n"
proof (induction rule: edits.induct)
  case (stay xs)
  show ?case by (simp add: lev_same)
next
  case (move xs ys n zs)
  from lev_edit1 [OF move.hyps(1), of zs] move.IH show ?case by simp
qed

lemma editDistance_lev: "editDistance xs ys = lev xs ys"
  unfolding editDistance_def
  by (rule Least_equality) (simp_all add: aligns_edits aligns_lev lev_le_edits)

lemma foldl_upt_invariant:
  assumes "P a lo" and "lo \<le> hi"
    and "\<And>k x. lo \<le> k \<Longrightarrow> k < hi \<Longrightarrow> P x k \<Longrightarrow> P (f x k) (Suc k)"
  shows "P (foldl f a [lo..<hi]) hi"
  using assms(2,3)
proof (induction hi)
  case 0
  with assms(1) show ?case by simp
next
  case (Suc hi)
  show ?case
  proof (cases "lo = Suc hi")
    case True
    with assms(1) show ?thesis by simp
  next
    case False
    with Suc.prems(1) have le: "lo \<le> hi" by simp
    have "P (foldl f a [lo..<hi]) hi"
      using Suc.IH [OF le] Suc.prems(2) by simp
    then have "P (f (foldl f a [lo..<hi]) hi) (Suc hi)"
      using Suc.prems(2) [of hi] le by simp
    then show ?thesis using le by simp
  qed
qed

lemma matGet_matSet:
  "j < length matrix \<Longrightarrow> i < length (matrix ! j) \<Longrightarrow> j' < length matrix \<Longrightarrow>
   matGet (matSet matrix j i v) j' i' = (if j' = j \<and> i' = i then v else matGet matrix j' i')"
  by (simp add: matGet_def matSet_def nth_list_update)

lemma wellFormed_matSet:
  "wellFormed n1 n2 matrix \<Longrightarrow> wellFormed n1 n2 (matSet matrix j i v)"
  by (cases "j < length matrix") (auto simp add: wellFormed_def matSet_def nth_list_update)

lemma wellFormed_get_set:
  assumes "wellFormed n1 n2 matrix" "j \<le> n2" "i \<le> n1" "j' \<le> n2"
  shows "matGet (matSet matrix j i v) j' i' = (if j' = j \<and> i' = i then v else matGet matrix j' i')"
  using assms by (intro matGet_matSet) (simp_all add: wellFormed_def)

lemma wellFormed_get_same:
  assumes "wellFormed n1 n2 matrix" "j \<le> n2" "i \<le> n1"
  shows "matGet (matSet matrix j i v) j i = v"
  using wellFormed_get_set [OF assms assms(2)] by simp

lemma wellFormed_get_other:
  assumes "wellFormed n1 n2 matrix" "j \<le> n2" "i \<le> n1" "j' \<le> n2" "\<not> (j' = j \<and> i' = i)"
  shows "matGet (matSet matrix j i v) j' i' = matGet matrix j' i'"
  by (simp only: wellFormed_get_set [OF assms(1-4)] assms(5) if_False)

lemma target_row0: "i \<le> length str1 \<Longrightarrow> target str1 str2 0 i = i"
  by (simp add: target_def lev_Nil2)

lemma target_col0: "j \<le> length str2 \<Longrightarrow> target str1 str2 j 0 = j"
  by (simp add: target_def)

lemma target_step:
  assumes "i < length str1" "j < length str2"
  shows "target str1 str2 (Suc j) (Suc i) =
           min (min (target str1 str2 (Suc j) i + 1) (target str1 str2 j (Suc i) + 1))
             (target str1 str2 j i + (if str1 ! i = str2 ! j then 0 else 1))"
  using assms by (simp add: target_def take_Suc_conv_app_nth)

lemma target_final: "target str1 str2 (length str2) (length str1) = lev str1 str2"
  by (simp add: target_def lev_rev)

lemma levCell_filled:
  assumes "filled str1 str2 matrix j (i - 1)" "1 \<le> j" "j \<le> length str2" "1 \<le> i" "i \<le> length str1"
  shows "filled str1 str2 (levCell str1 str2 j matrix i) j i"
proof -
  let ?n1 = "length str1" and ?n2 = "length str2"
  from assms(1) have wf: "wellFormed ?n1 ?n2 matrix"
    by (simp add: filled_def)
  have cells: "matGet matrix j' i' = target str1 str2 j' i'"
    if "j' \<le> ?n2" "i' \<le> ?n1" "j' = 0 \<or> i' = 0 \<or> j' < j \<or> (j' = j \<and> i' \<le> i - 1)"
    for j' i'
    using assms(1) that unfolding filled_def by blast
  obtain j0 i0 where j: "j = Suc j0" and i: "i = Suc i0"
    using assms(2,4) by (metis One_nat_def Suc_le_D)
  have j0: "j0 < ?n2" and i0: "i0 < ?n1" using assms(3,5) j i by simp_all
  have left: "matGet matrix j (i - 1) = target str1 str2 (Suc j0) i0"
    using cells [of j "i - 1"] assms(3,5) j i by simp
  have up: "matGet matrix (j - 1) i = target str1 str2 j0 (Suc i0)"
    using cells [of "j - 1" i] assms(3,5) j i by simp
  have diag: "matGet matrix (j - 1) (i - 1) = target str1 str2 j0 i0"
    using cells [of "j - 1" "i - 1"] assms(3,5) j i by simp
  let ?v = "min (min (matGet matrix j (i - 1) + 1) (matGet matrix (j - 1) i + 1))
              (matGet matrix (j - 1) (i - 1)
                 + (if str1 ! (i - 1) = str2 ! (j - 1) then 0 else 1))"
  have v: "?v = target str1 str2 j i"
    unfolding left up diag using target_step [OF i0 j0] by (simp add: j i)
  have new: "levCell str1 str2 j matrix i = matSet matrix j i ?v"
    by (simp add: levCell_def Let_def)
  have "matGet (matSet matrix j i ?v) j' i' = target str1 str2 j' i'"
    if "j' \<le> ?n2" "i' \<le> ?n1" "j' = 0 \<or> i' = 0 \<or> j' < j \<or> (j' = j \<and> i' \<le> i)" for j' i'
  proof (cases "j' = j \<and> i' = i")
    case True
    then have "matGet (matSet matrix j i ?v) j' i' = ?v"
      using wellFormed_get_same [OF wf assms(3,5)] by simp
    with True show ?thesis by (simp only: v)
  next
    case False
    then have "j' = 0 \<or> i' = 0 \<or> j' < j \<or> (j' = j \<and> i' \<le> i - 1)"
      using that(3) by auto
    then have "matGet matrix j' i' = target str1 str2 j' i'"
      using cells that(1,2) by blast
    then show ?thesis
      by (simp only: wellFormed_get_other [OF wf assms(3,5) that(1) False])
  qed
  then show ?thesis
    unfolding new filled_def using wellFormed_matSet [OF wf] by blast
qed

lemma filled_next_row:
  assumes "filled str1 str2 matrix j (length str1)"
  shows "filled str1 str2 matrix (Suc j) 0"
proof -
  from assms have wf: "wellFormed (length str1) (length str2) matrix"
    by (simp add: filled_def)
  have "matGet matrix j' i' = target str1 str2 j' i'"
    if "j' \<le> length str2" "i' \<le> length str1"
      "j' = 0 \<or> i' = 0 \<or> j' < Suc j \<or> (j' = Suc j \<and> i' \<le> 0)" for j' i'
  proof -
    from that(2,3) have "j' = 0 \<or> i' = 0 \<or> j' < j \<or> (j' = j \<and> i' \<le> length str1)"
      by auto
    with assms that(1,2) show ?thesis unfolding filled_def by blast
  qed
  with wf show ?thesis unfolding filled_def by blast
qed

lemma row_filled:
  assumes "filled str1 str2 matrix j 0" "1 \<le> j" "j \<le> length str2"
  shows "filled str1 str2 (foldl (levCell str1 str2 j) matrix [1..<length str1 + 1]) (Suc j) 0"
proof -
  have "filled str1 str2 (foldl (levCell str1 str2 j) matrix [1..<length str1 + 1]) j
          (length str1 + 1 - 1)"
  proof (rule foldl_upt_invariant [where P = "\<lambda>m k. filled str1 str2 m j (k - 1)"])
    show "filled str1 str2 matrix j (1 - 1)" using assms(1) by simp
    show "1 \<le> length str1 + 1" by simp
    fix k x
    assume "1 \<le> k" "k < length str1 + 1" "filled str1 str2 x j (k - 1)"
    then show "filled str1 str2 (levCell str1 str2 j x k) j (Suc k - 1)"
      using levCell_filled [of str1 str2 x j k] assms(2,3) by simp
  qed
  then show ?thesis
    using filled_next_row [of str1 str2 _ j] by simp
qed

lemma borders_target:
  assumes "wellFormed (length str1) (length str2) matrix"
    and "\<forall>i<length str1 + 1. matGet matrix 0 i = i"
    and "\<forall>j<length str2 + 1. matGet matrix j 0 = j"
  shows "filled str1 str2 matrix 1 0"
proof -
  have "matGet matrix j' i' = target str1 str2 j' i'"
    if "j' \<le> length str2" "i' \<le> length str1"
      "j' = 0 \<or> i' = 0 \<or> j' < 1 \<or> (j' = 1 \<and> i' \<le> 0)" for j' i'
  proof (cases "j' = 0")
    case True
    with assms(2) that(2) show ?thesis by (simp add: target_row0)
  next
    case False
    with that(3) have "i' = 0" by auto
    with assms(3) that(1) show ?thesis by (simp add: target_col0)
  qed
  with assms(1) show ?thesis unfolding filled_def by blast
qed

lemma borders_filled:
  "filled str1 str2
     (foldl (\<lambda>matrix j. matSet matrix j 0 j)
        (foldl (\<lambda>matrix i. matSet matrix 0 i i)
           (replicate (length str2 + 1) (replicate (length str1 + 1) 0))
           [0..<length str1 + 1])
        [0..<length str2 + 1]) 1 0"
proof -
  let ?n1 = "length str1" and ?n2 = "length str2"
  let ?m0 = "replicate (?n2 + 1) (replicate (?n1 + 1) (0::nat))"
  let ?m1 = "foldl (\<lambda>matrix i. matSet matrix 0 i i) ?m0 [0..<?n1 + 1]"
  let ?m2 = "foldl (\<lambda>matrix j. matSet matrix j 0 j) ?m1 [0..<?n2 + 1]"
  have wf0: "wellFormed ?n1 ?n2 ?m0"
    by (simp add: wellFormed_def del: replicate.simps)
  have one: "wellFormed ?n1 ?n2 ?m1 \<and> (\<forall>i<?n1 + 1. matGet ?m1 0 i = i)"
  proof (rule foldl_upt_invariant
           [where P = "\<lambda>m k. wellFormed ?n1 ?n2 m \<and> (\<forall>i<k. matGet m 0 i = i)"])
    show "wellFormed ?n1 ?n2 ?m0 \<and> (\<forall>i<0. matGet ?m0 0 i = i)" using wf0 by simp
    show "0 \<le> ?n1 + 1" by simp
    fix k x
    assume k: "0 \<le> k" "k < ?n1 + 1"
      and x: "wellFormed ?n1 ?n2 x \<and> (\<forall>i<k. matGet x 0 i = i)"
    then have get: "matGet (matSet x 0 k k) 0 i = (if i = k then k else matGet x 0 i)" for i
      using wellFormed_get_set [of ?n1 ?n2 x 0 k 0 k i] by simp
    show "wellFormed ?n1 ?n2 (matSet x 0 k k) \<and> (\<forall>i<Suc k. matGet (matSet x 0 k k) 0 i = i)"
      using x wellFormed_matSet [of ?n1 ?n2 x] by (simp add: get less_Suc_eq)
  qed
  have two: "wellFormed ?n1 ?n2 ?m2 \<and> (\<forall>i<?n1 + 1. matGet ?m2 0 i = i)
               \<and> (\<forall>j<?n2 + 1. matGet ?m2 j 0 = j)"
  proof (rule foldl_upt_invariant
           [where P = "\<lambda>m k. wellFormed ?n1 ?n2 m \<and> (\<forall>i<?n1 + 1. matGet m 0 i = i)
                              \<and> (\<forall>j<k. matGet m j 0 = j)"])
    show "wellFormed ?n1 ?n2 ?m1 \<and> (\<forall>i<?n1 + 1. matGet ?m1 0 i = i)
            \<and> (\<forall>j<0. matGet ?m1 j 0 = j)"
      using one by simp
    show "0 \<le> ?n2 + 1" by simp
    fix k x
    assume k: "0 \<le> k" "k < ?n2 + 1"
      and x: "wellFormed ?n1 ?n2 x \<and> (\<forall>i<?n1 + 1. matGet x 0 i = i) \<and> (\<forall>j<k. matGet x j 0 = j)"
    from x have wfx: "wellFormed ?n1 ?n2 x" by simp
    from k have kn: "k \<le> ?n2" by simp
    have "matGet (matSet x k 0 k) 0 i = i" if "i < ?n1 + 1" for i
    proof (cases "0 = k \<and> i = 0")
      case True
      then show ?thesis using wellFormed_get_same [OF wfx kn, of 0 k] by simp
    next
      case False
      have "matGet (matSet x k 0 k) 0 i = matGet x 0 i"
        by (rule wellFormed_get_other [OF wfx kn _ _ False]) simp_all
      with x that show ?thesis by simp
    qed
    then have "\<forall>i<?n1 + 1. matGet (matSet x k 0 k) 0 i = i" by blast
    moreover have "matGet (matSet x k 0 k) j 0 = j" if "j < Suc k" for j
    proof (cases "j = k")
      case True
      then show ?thesis using wellFormed_get_same [OF wfx kn, of 0 k] by simp
    next
      case False
      with that have jk: "j < k" by simp
      with kn have "j \<le> ?n2" by simp
      then have "matGet (matSet x k 0 k) j 0 = matGet x j 0"
        using False by (intro wellFormed_get_other [OF wfx kn]) simp_all
      with x jk show ?thesis by simp
    qed
    then have "\<forall>j<Suc k. matGet (matSet x k 0 k) j 0 = j" by blast
    ultimately show "wellFormed ?n1 ?n2 (matSet x k 0 k)
            \<and> (\<forall>i<?n1 + 1. matGet (matSet x k 0 k) 0 i = i)
            \<and> (\<forall>j<Suc k. matGet (matSet x k 0 k) j 0 = j)"
      using x wellFormed_matSet [of ?n1 ?n2 x] by blast
  qed
  from two show ?thesis
    by (intro borders_target) blast+
qed

lemma levenshteinDistance_lev: "levenshteinDistance str1 str2 = lev str1 str2"
proof -
  let ?n1 = "length str1" and ?n2 = "length str2"
  let ?m2 = "foldl (\<lambda>matrix j. matSet matrix j 0 j)
        (foldl (\<lambda>matrix i. matSet matrix 0 i i)
           (replicate (length str2 + 1) (replicate (length str1 + 1) 0))
           [0..<length str1 + 1])
        [0..<length str2 + 1]"
  let ?m3 = "foldl (\<lambda>matrix j. foldl (levCell str1 str2 j) matrix [1..<?n1 + 1]) ?m2
               [1..<?n2 + 1]"
  have "filled str1 str2 ?m3 (?n2 + 1) 0"
  proof (rule foldl_upt_invariant [where P = "\<lambda>m j. filled str1 str2 m j 0"])
    show "filled str1 str2 ?m2 1 0" by (rule borders_filled)
    show "1 \<le> ?n2 + 1" by simp
    fix k x
    assume "1 \<le> k" "k < ?n2 + 1" "filled str1 str2 x k 0"
    then show "filled str1 str2 (foldl (levCell str1 str2 k) x [1..<?n1 + 1]) (Suc k) 0"
      using row_filled [of str1 str2 x k] by simp
  qed
  then have "matGet ?m3 ?n2 ?n1 = target str1 str2 ?n2 ?n1"
    by (simp add: filled_def)
  then show ?thesis
    by (simp add: levenshteinDistance_def Let_def target_final)
qed

lemma calculateStringSimilarity_lev:
  "calculateStringSimilarity str1 str2 =
     (if str1 = [] \<and> str2 = [] then 1
      else (real (max (length str1) (length str2)) - real (lev str1 str2))
           / real (max (length str1) (length str2)))"
proof (cases "length str2 < length str1")
  case True
  then show ?thesis
    by (auto simp add: calculateStringSimilarity_def Let_def levenshteinDistance_lev max_def)
next
  case False
  then show ?thesis
    by (auto simp add: calculateStringSimilarity_def Let_def levenshteinDistance_lev max_def
          lev_sym [of str2 str1])
qed

text \<open>
  C9.  For all strings, \<^verbatim>\<open>calculateStringSimilarity\<close> lies between 0 and 1, is
  symmetric, and is 1 exactly when the two strings are equal; and
  \<^verbatim>\<open>levenshteinDistance\<close> is the standard edit distance, the least number of
  insertions, deletions and substitutions that turn the first string into the second.
\<close>

theorem calculateStringSimilarity_properties:
  "0 \<le> calculateStringSimilarity s1 s2
   \<and> calculateStringSimilarity s1 s2 \<le> 1
   \<and> calculateStringSimilarity s1 s2 = calculateStringSimilarity s2 s1
   \<and> (calculateStringSimilarity s1 s2 = 1 \<longleftrightarrow> s1 = s2)
   \<and> levenshteinDistance s1 s2 = editDistance s1 s2"
proof -
  let ?L = "max (length s1) (length s2)"
  have bound: "lev s1 s2 \<le> ?L" by (rule lev_le_max)
  have sym: "calculateStringSimilarity s1 s2 = calculateStringSimilarity s2 s1"
    by (auto simp add: calculateStringSimilarity_lev lev_sym [of s1 s2] max.commute)
  show ?thesis
  proof (cases "s1 = [] \<and> s2 = []")
    case True
    then show ?thesis
      by (simp add: calculateStringSimilarity_lev levenshteinDistance_lev editDistance_lev)
  next
    case False
    then have pos: "0 < ?L" by (cases s1; cases s2) simp_all
    have sim: "calculateStringSimilarity s1 s2 = (real ?L - real (lev s1 s2)) / real ?L"
      using False by (simp add: calculateStringSimilarity_lev)
    have nonneg: "0 \<le> calculateStringSimilarity s1 s2"
      unfolding sim using bound pos by simp
    have le1: "calculateStringSimilarity s1 s2 \<le> 1"
      unfolding sim using pos by simp
    have "calculateStringSimilarity s1 s2 = 1 \<longleftrightarrow> lev s1 s2 = 0"
      unfolding sim using pos False by (auto simp add: field_simps)
    then have one: "calculateStringSimilarity s1 s2 = 1 \<longleftrightarrow> s1 = s2"
      by (simp add: lev_0_iff)
    from nonneg le1 sym one show ?thesis
      by (simp add: levenshteinDistance_lev editDistance_lev)
  qed
qed

theorem calculateStringSimilarity_properties_witness:
  "levenshteinDistance ''PO-7'' ''PO7'' = 1
   \<and> editDistance ''PO-7'' ''PO7'' = 1
   \<and> calculateStringSimilarity ''PO-7'' ''PO7'' = 3 / 4
   \<and> calculateStringSimilarity ''PO7'' ''PO-7'' = 3 / 4"
proof -
  have d: "levenshteinDistance ''PO-7'' ''PO7'' = 1"
    by code_simp
  have s: "calculateStringSimilarity ''PO-7'' ''PO7'' = 3 / 4"
    by (simp add: calculateStringSimilarity_def d)
  from calculateStringSimilarity_properties [of "''PO-7''" "''PO7''"]
  have "calculateStringSimilarity ''PO-7'' ''PO7'' = calculateStringSimilarity ''PO7'' ''PO-7''"
    and "levenshteinDistance ''PO-7'' ''PO7'' = editDistance ''PO-7'' ''PO7''"
    by blast+
  with d s show ?thesis by simp
qed

section \<open>Learning: a repeated invoice\<close>

lemma reinforceMemory_skip:
  "fb_invoiceId feedback \<in> processedInvoices eng \<Longrightarrow>
   reinforceMemory js feedback eng = (None, eng)"
  by (simp add: reinforceMemory_def)

lemma reinforceMemory_marks_processed:
  "reinforceMemory js feedback eng = (None, eng') \<Longrightarrow>
   fb_invoiceId feedback \<in> processedInvoices eng'"
  by (auto simp add: reinforceMemory_def Let_def
        split: if_splits prod.splits sum.splits option.splits)

text \<open>
  C4.  A first \<^verbatim>\<open>reinforceMemory\<close> for invoice INV-001 completes: it bumps the usage
  of the vendor pattern, writes one audit entry and records the invoice.  A second call
  for the same invoice returns the engine exactly as the first call left it: the stored
  patterns are the same, and so is the audit log, which still has its one entry; the
  skip itself leaves no audit entry.
\<close>

theorem reinforceMemory_repeat_writes_no_audit_entry:
  "reinforceMemory plainBuiltins acmeFeedback acmeEngine = (None, acmeEngineLearned)
   \<and> reinforceMemory plainBuiltins acmeFeedback acmeEngineLearned = (None, acmeEngineLearned)
   \<and> length (audit_logs (memoryStore acmeEngine)) = 0
   \<and> length (audit_logs (memoryStore acmeEngineLearned)) = 1"
proof -
  have first: "reinforceMemory plainBuiltins acmeFeedback acmeEngine = (None, acmeEngineLearned)"
    by (simp add: reinforceMemory_def acmeFeedback_def acmeEngine_def acmeStore_def
          reinforceVendorMemory_def updateVendorMemoryUsage_def getClient_def logAuditEntry_def
          acmePattern_def reinforcementEvent_def auditId_def learningId_def plainBuiltins_def natToString_examples
          acmeEngineLearned_def Let_def)
  have second:
    "reinforceMemory plainBuiltins acmeFeedback acmeEngineLearned = (None, acmeEngineLearned)"
    by (simp add: reinforceMemory_def acmeFeedback_def acmeEngineLearned_def)
  have logs: "length (audit_logs (memoryStore acmeEngine)) = 0"
    "length (audit_logs (memoryStore acmeEngineLearned)) = 1"
    by (simp_all add: acmeEngine_def acmeStore_def acmeEngineLearned_def)
  from first second logs show ?thesis by simp
qed

section \<open>Output: the error-shaped result\<close>

lemma buildResult_nameless:
  "buildResult plainBuiltins namelessInvoice reviewDecision (insightsFrom plainBuiltins [] [] []) []
   = Inl (Error ''Output validation failed: invoiceId must be a non-empty string'')"
  by (simp add: buildResult_def Let_def namelessInvoice_def acmeInvoice_def reviewDecision_def
        formatAuditTrail_def validateOutput_def validationErrors_def calculateMemoryInsights_def
        insightsFrom_def confidenceOutOfRange_def createStructuredReasoning_def
        plainBuiltins_def natToString_examples auditTrailErrors_def makeProcessingDecision_def determineAction_def
        applySafetyConstraints_def defaultThresholds_def blockingConstraints_def
        calculateOverallConfidence_def)

text \<open>
  C8.  Whenever the \<^verbatim>\<open>try\<close> block of \<^verbatim>\<open>createInvoiceProcessingResult\<close> raises an
  error, from a failed validation or from a step before it, the function returns the
  error-shaped result: decision human-review, confidence score 0, a non-empty reasoning
  that quotes the sanitised message, no applied corrections, memory insights that are all
  zero, and an audit trail of exactly one entry, which describes the failure.  The
  function returns a result on every input; it raises nothing.
\<close>

theorem createInvoiceProcessingResult_error_shape:
  assumes "buildResult js invoice decision insights auditLogs = Inl e"
  shows "\<exists>entry.
           createInvoiceProcessingResult js invoice decision insights auditLogs =
             \<lparr>r_invoiceId = (if inv_id invoice \<noteq> [] then inv_id invoice else ''unknown''),
              r_decision = HumanReview,
              r_confidenceScore = Fin 0,
              r_reasoning = ''Error occurred during processing: ''
                             @ sanitizeErrorMessage (message e)
                             @ ''. Defaulting to human review for safety.'',
              r_appliedCorrections = [],
              r_memoryInsights =
                \<lparr>vendorPatternsUsed = 0, correctionsApplied = 0, historicalAccuracy = Fin 0\<rparr>,
              r_auditTrail = [entry]\<rparr>
           \<and> at_reasoning entry = ''Processing error: '' @ sanitizeErrorMessage (message e)
           \<and> r_reasoning (createInvoiceProcessingResult js invoice decision insights auditLogs)
               \<noteq> []"
  using assms
  by (simp add: createInvoiceProcessingResult_def createErrorOutput_def Let_def)

theorem createInvoiceProcessingResult_error_shape_witness:
  "buildResult plainBuiltins namelessInvoice reviewDecision (insightsFrom plainBuiltins [] [] []) []
     = Inl (Error ''Output validation failed: invoiceId must be a non-empty string'')
   \<and> r_invoiceId (createInvoiceProcessingResult plainBuiltins namelessInvoice reviewDecision
                    (insightsFrom plainBuiltins [] [] []) []) = ''unknown''
   \<and> r_decision (createInvoiceProcessingResult plainBuiltins namelessInvoice reviewDecision
                    (insightsFrom plainBuiltins [] [] []) []) = HumanReview
   \<and> length (r_auditTrail (createInvoiceProcessingResult plainBuiltins namelessInvoice
                    reviewDecision (insightsFrom plainBuiltins [] [] []) [])) = 1"
proof -
  from createInvoiceProcessingResult_error_shape [OF buildResult_nameless]
  obtain entry where
    "createInvoiceProcessingResult plainBuiltins namelessInvoice reviewDecision
       (insightsFrom plainBuiltins [] [] []) [] =
     \<lparr>r_invoiceId = (if inv_id namelessInvoice \<noteq> [] then inv_id namelessInvoice
                      else ''unknown''),
      r_decision = HumanReview,
      r_confidenceScore = Fin 0,
      r_reasoning = ''Error occurred during processing: ''
                     @ sanitizeErrorMessage
                         (message (Error ''Output validation failed: invoiceId must be a non-empty string''))
                     @ ''. Defaulting to human review for safety.'',
      r_appliedCorrections = [],
      r_memoryInsights =
        \<lparr>vendorPatternsUsed = 0, correctionsApplied = 0, historicalAccuracy = Fin 0\<rparr>,
      r_auditTrail = [entry]\<rparr>"
    by (elim exE conjE)
  then show ?thesis
    using buildResult_nameless by (simp add: namelessInvoice_def)
qed

section \<open>Output: historical accuracy\<close>

text \<open>
  C10.  The historical accuracy that \<^verbatim>\<open>calculateMemoryInsights\<close> reports is a finite
  number between 0 and 1, never \<^verbatim>\<open>NaN\<close>.  When there is no historical resolution the
  quotient of the two counts is \<^verbatim>\<open>NaN\<close> (zero by zero), and the reported accuracy is 0.
\<close>

theorem calculateMemoryInsights_accuracy_range:
  "(\<exists>x. historicalAccuracy (calculateMemoryInsights insights appliedCorrections) = Fin x
         \<and> 0 \<le> x \<and> x \<le> 1)
   \<and> (historicalResolutions insights = [] \<longrightarrow>
        js_div (real (length (filter rm_outcomeSuccess (historicalResolutions insights))))
               (real (length (historicalResolutions insights))) = NaN
        \<and> historicalAccuracy (calculateMemoryInsights insights appliedCorrections) = Fin 0)"
proof -
  have "\<exists>x. validateConfidenceScore q = Fin x \<and> 0 \<le> x \<and> x \<le> 1" for q
    by (cases q) simp_all
  then have range:
    "\<exists>x. historicalAccuracy (calculateMemoryInsights insights appliedCorrections) = Fin x
         \<and> 0 \<le> x \<and> x \<le> 1"
    by (simp add: calculateMemoryInsights_def Let_def)
  have empty: "historicalResolutions insights = [] \<longrightarrow>
        js_div (real (length (filter rm_outcomeSuccess (historicalResolutions insights))))
               (real (length (historicalResolutions insights))) = NaN
        \<and> historicalAccuracy (calculateMemoryInsights insights appliedCorrections) = Fin 0"
    by (simp add: calculateMemoryInsights_def Let_def js_div_def)
  from range empty show ?thesis by blast
qed

theorem calculateMemoryInsights_accuracy_range_witness:
  "historicalResolutions vendorOnlyInsights = []
   \<and> vendorPatterns vendorOnlyInsights \<noteq> []
   \<and> historicalAccuracy (calculateMemoryInsights vendorOnlyInsights []) = Fin 0"
proof -
  have h: "historicalResolutions vendorOnlyInsights = []"
    and v: "vendorPatterns vendorOnlyInsights \<noteq> []"
    by (simp_all add: vendorOnlyInsights_def insightsFrom_def Let_def)
  from calculateMemoryInsights_accuracy_range [of vendorOnlyInsights "[]"] h
  have "historicalAccuracy (calculateMemoryInsights vendorOnlyInsights []) = Fin 0"
    by blast
  with h v show ?thesis by blast
qed

end
